theory Spec2Isabelle
  imports Main
begin

section \<open>Python strings\<close>

text \<open>
  A Python \<^verbatim>\<open>str\<close> is a sequence of Unicode code points, and the regular expressions of
  \<^verbatim>\<open>scripts/generate_pdf.py\<close> look at code points (\<^verbatim>\<open>\s\<close>, \<^verbatim>\<open>\w\<close>, the ranges
  from U+3040 to U+309F), so a string is a list of code points. \<open>asc\<close> embeds an ASCII literal.
\<close>

type_synonym pystr = "nat list"

definition asc :: "string \<Rightarrow> pystr" where
  "asc s = map of_char s"

text \<open>
  The part of the Unicode database the program consults beyond ASCII is a parameter:
  \<open>u_alnum\<close> is \<^verbatim>\<open>str.isalnum\<close> on one code point, \<open>u_decimal\<close> says whether a code point
  is a decimal digit (what \<^verbatim>\<open>\d\<close> matches), and \<open>u_lower pre c post\<close> is what
  \<^verbatim>\<open>str.lower\<close> writes for the code point \<open>c\<close> standing between \<open>pre\<close> and \<open>post\<close>.
  They are only asked about code points from 128 on; on ASCII the functions below decide.
\<close>

record unicode =
  u_alnum :: "nat \<Rightarrow> bool"
  u_decimal :: "nat \<Rightarrow> bool"
  u_lower :: "pystr \<Rightarrow> nat \<Rightarrow> pystr \<Rightarrow> pystr"

text \<open>\<^verbatim>\<open>str.isspace\<close> on one code point; this is also what \<^verbatim>\<open>\s\<close> matches in a str pattern.\<close>

definition is_space :: "nat \<Rightarrow> bool" where
  "is_space c \<longleftrightarrow>
     (9 \<le> c \<and> c \<le> 13) \<or> (28 \<le> c \<and> c \<le> 32) \<or> c = 0x85 \<or> c = 0xA0 \<or> c = 0x1680 \<or>
     (0x2000 \<le> c \<and> c \<le> 0x200A) \<or> c = 0x2028 \<or> c = 0x2029 \<or> c = 0x202F \<or>
     c = 0x205F \<or> c = 0x3000"

text \<open>\<^verbatim>\<open>\w\<close> in a str pattern: alphanumeric or underscore.\<close>

definition is_word :: "unicode \<Rightarrow> nat \<Rightarrow> bool" where
  "is_word U c \<longleftrightarrow>
     (if c < 128 then (48 \<le> c \<and> c \<le> 57) \<or> (65 \<le> c \<and> c \<le> 90) \<or> c = 95 \<or> (97 \<le> c \<and> c \<le> 122)
      else u_alnum U c)"

text \<open>\<^verbatim>\<open>\d\<close> in a str pattern.\<close>

definition is_digit :: "unicode \<Rightarrow> nat \<Rightarrow> bool" where
  "is_digit U c \<longleftrightarrow> (if c < 128 then 48 \<le> c \<and> c \<le> 57 else u_decimal U c)"

text \<open>\<^verbatim>\<open>str.lower()\<close>: an ASCII capital becomes its small letter wherever it stands.\<close>

fun lower_from :: "unicode \<Rightarrow> pystr \<Rightarrow> pystr \<Rightarrow> pystr" where
  "lower_from U pre [] = []"
| "lower_from U pre (c # cs) =
     (if c < 128 then [if 65 \<le> c \<and> c \<le> 90 then c + 32 else c] else u_lower U pre c cs)
     @ lower_from U (pre @ [c]) cs"

definition lower :: "unicode \<Rightarrow> pystr \<Rightarrow> pystr" where
  "lower U s = lower_from U [] s"

text \<open>\<^verbatim>\<open>s.strip()\<close>.\<close>

definition strip :: "pystr \<Rightarrow> pystr" where
  "strip s = rev (dropWhile is_space (rev (dropWhile is_space s)))"

text \<open>\<^verbatim>\<open>s.split(d)\<close> for a separator of one character, and \<^verbatim>\<open>sep.join(xs)\<close>.\<close>

fun split_on :: "nat \<Rightarrow> pystr \<Rightarrow> pystr list" where
  "split_on d [] = [[]]"
| "split_on d (c # cs) =
     (if c = d then [] # split_on d cs
      else (case split_on d cs of l # ls \<Rightarrow> (c # l) # ls | [] \<Rightarrow> [[c]]))"

fun join :: "pystr \<Rightarrow> pystr list \<Rightarrow> pystr" where
  "join sep [] = []"
| "join sep [x] = x"
| "join sep (x # y # ys) = x @ sep @ join sep (y # ys)"

text \<open>\<^verbatim>\<open>s.startswith(p)\<close> and \<^verbatim>\<open>s.endswith(p)\<close>.\<close>

definition startswith :: "pystr \<Rightarrow> pystr \<Rightarrow> bool" where
  "startswith s p \<longleftrightarrow> take (length p) s = p"

definition endswith :: "pystr \<Rightarrow> pystr \<Rightarrow> bool" where
  "endswith s p \<longleftrightarrow> length p \<le> length s \<and> drop (length s - length p) s = p"


text \<open>The decimal digits of \<^verbatim>\<open>f"{n}"\<close> for a count.\<close>

fun show_nat :: "nat \<Rightarrow> pystr" where
  "show_nat n = (if n < 10 then [48 + n] else show_nat (n div 10) @ [48 + n mod 10])"

declare show_nat.simps [simp del]

section \<open>The table of contents: \<^verbatim>\<open>generate_toc\<close>\<close>

text \<open>
  \<^verbatim>\<open>re.match(r'^(#{2,3})\s+(.+)$', line)\<close>. \<open>dot_plus_end\<close> is \<^verbatim>\<open>(.+)$\<close> on the rest of
  the string: the dot refuses the newline only, and without MULTILINE the dollar stands at
  the end or before a last newline. \<open>ws_then_title k r\<close> lets \<^verbatim>\<open>\s+\<close> take \<open>k\<close> characters,
  then one fewer, as the backtracking does; \<open>try_hashes k\<close> lets \<^verbatim>\<open>#{2,3}\<close> take \<open>k\<close>.
\<close>

definition dot_plus_end :: "pystr \<Rightarrow> pystr option" where
  "dot_plus_end r =
     (let body = takeWhile (\<lambda>c. c \<noteq> 10) r; rest = dropWhile (\<lambda>c. c \<noteq> 10) r
      in if body \<noteq> [] \<and> (rest = [] \<or> rest = [10]) then Some body else None)"

fun ws_then_title :: "nat \<Rightarrow> pystr \<Rightarrow> pystr option" where
  "ws_then_title 0 r = None"
| "ws_then_title (Suc k) r =
     (case dot_plus_end (drop (Suc k) r) of
        Some t \<Rightarrow> Some t
      | None \<Rightarrow> ws_then_title k r)"

definition try_hashes :: "nat \<Rightarrow> pystr \<Rightarrow> (pystr \<times> pystr) option" where
  "try_hashes k line =
     (if k \<le> length (takeWhile (\<lambda>c. c = 35) line)
      then (let r = drop k line
            in map_option (\<lambda>t. (take k line, t))
                 (ws_then_title (length (takeWhile is_space r)) r))
      else None)"

definition match_header :: "pystr \<Rightarrow> (pystr \<times> pystr) option" where
  "match_header line =
     (case try_hashes 3 line of Some m \<Rightarrow> Some m | None \<Rightarrow> try_hashes 2 line)"

text \<open>
  \<^verbatim>\<open>re.sub(r'\s*\{#[^}]+\}', '', title)\<close>. \<open>anchor_at s\<close> is the match of the pattern at the
  head of \<open>s\<close>: what it binds between the braces and what follows the match. The substitution
  tries every position from the left and goes on behind a match.
\<close>

definition anchor_at :: "pystr \<Rightarrow> (pystr \<times> pystr) option" where
  "anchor_at s =
     (case dropWhile is_space s of
        a # b # t \<Rightarrow>
          (if a = 123 \<and> b = 35 \<and> takeWhile (\<lambda>c. c \<noteq> 125) t \<noteq> [] \<and> dropWhile (\<lambda>c. c \<noteq> 125) t \<noteq> []
           then Some (takeWhile (\<lambda>c. c \<noteq> 125) t, tl (dropWhile (\<lambda>c. c \<noteq> 125) t))
           else None)
      | _ \<Rightarrow> None)"

lemma anchor_at_shorter: "anchor_at s = Some (a, r) \<Longrightarrow> length r < length s"
proof -
  assume h: "anchor_at s = Some (a, r)"
  obtain x y t where d: "dropWhile is_space s = x # y # t"
    using h by (auto simp: anchor_at_def split: list.splits)
  have r: "r = tl (dropWhile (\<lambda>c. c \<noteq> 125) t)"
    using h d by (auto simp: anchor_at_def split: if_splits)
  have "length r \<le> length t"
    unfolding r using length_dropWhile_le [of "\<lambda>c. c \<noteq> 125" t] by simp
  moreover have "length (x # y # t) \<le> length s"
    using length_dropWhile_le [of is_space s] d by simp
  ultimately show ?thesis by simp
qed

function strip_anchors :: "pystr \<Rightarrow> pystr" where
  "strip_anchors [] = []"
| "strip_anchors (c # cs) =
     (case anchor_at (c # cs) of
        Some (a, r) \<Rightarrow> strip_anchors r
      | None \<Rightarrow> c # strip_anchors cs)"
  by pat_completeness auto
termination
  by (relation "measure length") (auto dest: anchor_at_shorter)

text \<open>
  The slug:
  \<^verbatim>\<open>anchor = re.sub(r'[^\w\s...-]', '', title_clean.lower())\<close>, where the dots stand for the
  ranges U+3040 to U+309F, U+30A0 to U+30FF and U+4E00 to U+9FFF,
  then \<^verbatim>\<open>anchor = re.sub(r'\s+', '-', anchor)\<close>.
\<close>

definition slug_char :: "unicode \<Rightarrow> nat \<Rightarrow> bool" where
  "slug_char U c \<longleftrightarrow>
     is_word U c \<or> is_space c \<or> (0x3040 \<le> c \<and> c \<le> 0x309f) \<or> (0x30a0 \<le> c \<and> c \<le> 0x30ff) \<or>
     (0x4e00 \<le> c \<and> c \<le> 0x9fff) \<or> c = 45"

function hyphenate :: "pystr \<Rightarrow> pystr" where
  "hyphenate [] = []"
| "hyphenate (c # cs) =
     (if is_space c then 45 # hyphenate (dropWhile is_space cs) else c # hyphenate cs)"
  by pat_completeness auto
termination
  by (relation "measure length") (auto simp: length_dropWhile_le less_Suc_eq_le)

definition slug :: "unicode \<Rightarrow> pystr \<Rightarrow> pystr" where
  "slug U title_clean = hyphenate (filter (slug_char U) (lower U title_clean))"

text \<open>
  The loop of \<^verbatim>\<open>generate_toc\<close> over the lines, with its three variables as the state.
  \<^verbatim>\<open>header_counts\<close> is the dictionary from a slug to the suffix given last.
\<close>

record toc_state =
  toc_items :: "pystr list"
  modified_lines :: "pystr list"
  header_counts :: "pystr \<rightharpoonup> nat"

definition toc_init :: toc_state where
  "toc_init = \<lparr>toc_items = [], modified_lines = [], header_counts = Map.empty\<rparr>"

definition toc_step :: "unicode \<Rightarrow> toc_state \<Rightarrow> pystr \<Rightarrow> toc_state" where
  "toc_step U st line =
     (case match_header line of
        Some (hashes, g2) \<Rightarrow>
          (let level = length hashes;
               title = strip g2;
               title_clean = strip_anchors title;
               anchor = slug U title_clean;
               counts = (case header_counts st anchor of
                           Some n \<Rightarrow> (header_counts st)(anchor \<mapsto> n + 1)
                         | None \<Rightarrow> (header_counts st)(anchor \<mapsto> 0));
               anchor = (case header_counts st anchor of
                           Some n \<Rightarrow> anchor @ asc ''-'' @ show_nat (n + 1)
                         | None \<Rightarrow> anchor);
               indent = concat (replicate (level - 2) (asc ''  ''))
           in \<lparr>toc_items = toc_items st @
                  [indent @ asc ''- ['' @ title_clean @ asc ''](#'' @ anchor @ asc '')''],
               modified_lines = modified_lines st @
                  [hashes @ asc '' '' @ title_clean @ asc '' {#'' @ anchor @ asc ''}''],
               header_counts = counts\<rparr>)
      | None \<Rightarrow> st\<lparr>modified_lines := modified_lines st @ [line]\<rparr>)"

definition toc_loop :: "unicode \<Rightarrow> pystr list \<Rightarrow> toc_state" where
  "toc_loop U lines = foldl (toc_step U) toc_init lines"

text \<open>The heading of the contents is \<^verbatim>\<open>"## \<close>U+76EE U+6B21\<^verbatim>\<open>\n\n"\<close>.\<close>

definition generate_toc :: "unicode \<Rightarrow> pystr \<Rightarrow> pystr \<times> pystr" where
  "generate_toc U markdown =
     (let st = toc_loop U (split_on 10 markdown)
      in if toc_items st = [] then ([], markdown)
         else (asc ''## '' @ [0x76EE, 0x6B21, 10, 10] @ join [10] (toc_items st)
                 @ [10, 10] @ asc ''---'' @ [10, 10],
               join [10] (modified_lines st)))"

text \<open>
  To state what the loop gives a header: \<open>header_of\<close> is what the loop body reads off a
  qualifying line (the hashes, the cleaned title and the slug the title derives, before any
  suffix), \<open>collisions U ls s\<close> counts the qualifying lines of \<open>ls\<close> that derive the slug
  \<open>s\<close>, and \<open>headers_in\<close> counts the qualifying lines.
\<close>

definition header_of :: "unicode \<Rightarrow> pystr \<Rightarrow> (pystr \<times> pystr \<times> pystr) option" where
  "header_of U line =
     (case match_header line of
        None \<Rightarrow> None
      | Some (hashes, g2) \<Rightarrow>
          Some (hashes, strip_anchors (strip g2), slug U (strip_anchors (strip g2))))"

definition derives :: "unicode \<Rightarrow> pystr \<Rightarrow> pystr \<Rightarrow> bool" where
  "derives U s line = (case header_of U line of None \<Rightarrow> False | Some (h, tc, s') \<Rightarrow> s' = s)"

definition collisions :: "unicode \<Rightarrow> pystr list \<Rightarrow> pystr \<Rightarrow> nat" where
  "collisions U ls s = length (filter (derives U s) ls)"

definition headers_in :: "unicode \<Rightarrow> pystr list \<Rightarrow> nat" where
  "headers_in U ls = length (filter (\<lambda>l. header_of U l \<noteq> None) ls)"

text \<open>
  \<open>nth_anchor s k\<close> is the anchor of a header that derives \<open>s\<close> after \<open>k\<close> earlier ones did;
  \<open>new_line\<close> and \<open>new_item\<close> are the rewritten line and the entry of the contents for a
  line that stands behind the lines \<open>before\<close>.
\<close>

definition nth_anchor :: "pystr \<Rightarrow> nat \<Rightarrow> pystr" where
  "nth_anchor s k = (if k = 0 then s else s @ asc ''-'' @ show_nat k)"

definition new_line :: "unicode \<Rightarrow> pystr list \<Rightarrow> pystr \<Rightarrow> pystr" where
  "new_line U before line =
     (case header_of U line of
        None \<Rightarrow> line
      | Some (h, tc, s) \<Rightarrow> h @ asc '' '' @ tc @ asc '' {#'' @ nth_anchor s (collisions U before s) @ asc ''}'')"

definition new_item :: "unicode \<Rightarrow> pystr list \<Rightarrow> pystr \<Rightarrow> pystr list" where
  "new_item U before line =
     (case header_of U line of
        None \<Rightarrow> []
      | Some (h, tc, s) \<Rightarrow>
          [concat (replicate (length h - 2) (asc ''  '')) @ asc ''- ['' @ tc @ asc ''](#''
             @ nth_anchor s (collisions U before s) @ asc '')''])"

text \<open>A Unicode table for texts in ASCII: nothing beyond ASCII is a letter or a digit.\<close>

definition ascii_table :: unicode where
  "ascii_table = \<lparr>u_alnum = (\<lambda>c. False), u_decimal = (\<lambda>c. False), u_lower = (\<lambda>pre c post. [c])\<rparr>"

section \<open>Tables\<close>

text \<open>
  The cells of a row, as \<^verbatim>\<open>convert_table\<close> reads them for the header and for every body line:
  \<^verbatim>\<open>cells = [c.strip() for c in line.split('|')[1:-1]]\<close>, and when that is empty
  \<^verbatim>\<open>cells = [c.strip() for c in line.split('|') if c.strip()]\<close>.
\<close>

definition row_cells :: "pystr \<Rightarrow> pystr list" where
  "row_cells line =
     (let cells = map strip (butlast (tl (split_on 124 line)))
      in if cells = [] then filter (\<lambda>c. c \<noteq> []) (map strip (split_on 124 line)) else cells)"

definition body_row :: "pystr \<Rightarrow> pystr list" where
  "body_row line =
     (let cells = row_cells line
      in if cells \<noteq> []
         then [asc ''<tr>''] @ map (\<lambda>cell. asc ''<td>'' @ cell @ asc ''</td>'') cells @ [asc ''</tr>'']
         else [])"

definition convert_table :: "pystr list \<Rightarrow> pystr" where
  "convert_table table_lines =
     (if length table_lines < 2 then join [10] table_lines
      else join [10]
        ([asc ''<table>''] @ [asc ''<thead><tr>'']
         @ map (\<lambda>cell. asc ''<th>'' @ cell @ asc ''</th>'') (row_cells (hd table_lines))
         @ [asc ''</tr></thead>''] @ [asc ''<tbody>'']
         @ concat (map body_row (drop 2 table_lines))
         @ [asc ''</tbody></table>'']))"

text \<open>
  \<^verbatim>\<open>re.match(r'^\|[\s\-:|]+\|$', stripped)\<close>: a bar, one or more characters of the class, a
  bar, the end (or a last newline). The class holds the bar, so the repetition takes
  \<open>k\<close> characters of the run of class characters, then one fewer.
\<close>

definition sep_char :: "nat \<Rightarrow> bool" where
  "sep_char c \<longleftrightarrow> is_space c \<or> c = 45 \<or> c = 58 \<or> c = 124"

fun sep_tail :: "nat \<Rightarrow> pystr \<Rightarrow> bool" where
  "sep_tail 0 r = False"
| "sep_tail (Suc k) r = (drop (Suc k) r = [124] \<or> drop (Suc k) r = [124, 10] \<or> sep_tail k r)"

definition is_separator :: "pystr \<Rightarrow> bool" where
  "is_separator stripped =
     (case stripped of
        [] \<Rightarrow> False
      | c # r \<Rightarrow> c = 124 \<and> sep_tail (length (takeWhile sep_char r)) r)"

definition is_table_line :: "pystr \<Rightarrow> bool" where
  "is_table_line stripped \<longleftrightarrow> startswith stripped (asc ''|'') \<and> endswith stripped (asc ''|'')"

text \<open>The loop over the lines, with \<^verbatim>\<open>result_lines\<close>, \<^verbatim>\<open>table_buffer\<close>, \<^verbatim>\<open>in_table\<close>.\<close>

record table_state =
  result_lines :: "pystr list"
  table_buffer :: "pystr list"
  in_table :: bool

definition table_step :: "table_state \<Rightarrow> pystr \<Rightarrow> table_state" where
  "table_step st line =
     (let stripped = strip line
      in if is_table_line stripped \<or> is_separator stripped
         then st\<lparr>table_buffer := table_buffer st @ [stripped], in_table := True\<rparr>
         else if in_table st \<and> table_buffer st \<noteq> []
         then \<lparr>result_lines = result_lines st @ [convert_table (table_buffer st)] @ [line],
               table_buffer = [], in_table = False\<rparr>
         else st\<lparr>result_lines := result_lines st @ [line]\<rparr>)"

definition table_lines :: "pystr list \<Rightarrow> pystr list" where
  "table_lines lines =
     (let st = foldl table_step \<lparr>result_lines = [], table_buffer = [], in_table = False\<rparr> lines
      in if table_buffer st \<noteq> [] then result_lines st @ [convert_table (table_buffer st)]
         else result_lines st)"

definition tables :: "pystr \<Rightarrow> pystr" where
  "tables html = join [10] (table_lines (split_on 10 html))"

section \<open>Paragraphs\<close>

text \<open>\<^verbatim>\<open>html.split('\n\n')\<close>.\<close>

fun split_blank :: "pystr \<Rightarrow> pystr list" where
  "split_blank [] = [[]]"
| "split_blank [a] = [[a]]"
| "split_blank (a # b # cs) =
     (if a = 10 \<and> b = 10 then [] # split_blank cs
      else (case split_blank (b # cs) of l # ls \<Rightarrow> (a # l) # ls | [] \<Rightarrow> [[a]]))"

text \<open>
  \<^verbatim>\<open>re.match(r'^<(h[1-6]|ul|ol|li|blockquote|figure|hr|p|div|table)', stripped, re.IGNORECASE)\<close>.
  Without regard to case a letter of the pattern matches itself, its capital, and the
  letters beyond ASCII that Python folds onto it: U+0130 and U+0131 for i, U+212A for k,
  U+017F for s.
\<close>

definition ieq :: "nat \<Rightarrow> nat \<Rightarrow> bool" where
  "ieq p c \<longleftrightarrow>
     c = p \<or> (97 \<le> p \<and> p \<le> 122 \<and> c + 32 = p) \<or> (p = 105 \<and> (c = 0x130 \<or> c = 0x131)) \<or>
     (p = 107 \<and> c = 0x212A) \<or> (p = 115 \<and> c = 0x17F)"

definition istartswith :: "pystr \<Rightarrow> pystr \<Rightarrow> bool" where
  "istartswith s p \<longleftrightarrow> length p \<le> length s \<and> list_all2 ieq p (take (length p) s)"

definition block_tag :: "pystr \<Rightarrow> bool" where
  "block_tag stripped =
     (case stripped of
        [] \<Rightarrow> False
      | c # r \<Rightarrow> c = 60 \<and>
          ((case r of [] \<Rightarrow> False | h # d \<Rightarrow> ieq 104 h \<and> (case d of [] \<Rightarrow> False | n # _ \<Rightarrow> 49 \<le> n \<and> n \<le> 54)) \<or>
           istartswith r (asc ''ul'') \<or> istartswith r (asc ''ol'') \<or> istartswith r (asc ''li'') \<or>
           istartswith r (asc ''blockquote'') \<or> istartswith r (asc ''figure'') \<or>
           istartswith r (asc ''hr'') \<or> istartswith r (asc ''p'') \<or> istartswith r (asc ''div'') \<or>
           istartswith r (asc ''table'')))"

definition para_step :: "pystr list \<Rightarrow> pystr \<Rightarrow> pystr list" where
  "para_step processed_blocks block =
     (let stripped = strip block
      in if stripped = [] then processed_blocks
         else if block_tag stripped then processed_blocks @ [stripped]
         else if startswith stripped (asc ''<'') then processed_blocks @ [stripped]
         else processed_blocks @ [asc ''<p>'' @ stripped @ asc ''</p>''])"

definition paragraphs :: "pystr \<Rightarrow> pystr" where
  "paragraphs html = join [10] (foldl para_step [] (split_blank html))"

text \<open>
  What the paragraph stage writes for one block: nothing for a block of white space, the
  stripped block itself when it begins with \<^verbatim>\<open><\<close>, and one paragraph otherwise.
\<close>

definition block_out :: "pystr \<Rightarrow> pystr list" where
  "block_out block =
     (if strip block = [] then []
      else if startswith (strip block) (asc ''<'') then [strip block]
      else [asc ''<p>'' @ strip block @ asc ''</p>''])"

text \<open>A line that the table loop accumulates.\<close>

definition is_row :: "pystr \<Rightarrow> bool" where
  "is_row line \<longleftrightarrow> is_table_line (strip line) \<or> is_separator (strip line)"

section \<open>Substituting a pattern\<close>

text \<open>
  \<^verbatim>\<open>re.sub\<close> and \<^verbatim>\<open>re.findall\<close> try the pattern at every position from the left and go on
  behind a match. A pattern is given by its match at one position: \<open>m prev s\<close>, where \<open>s\<close> is
  the text from the position on and \<open>prev\<close> the character before it (for \<^verbatim>\<open>^\<close> under MULTILINE
  and for a look-behind), is what the match binds and the text behind the match. No pattern
  of the program matches the empty string, and the matchers below never return their whole
  input as the rest; \<open>re_scan\<close> copies the character when a matcher would. The scan is the list
  of the characters no match covers and of the matches, in order.
\<close>

datatype 'a piece = Lit nat | Match 'a

function re_scan :: "(nat option \<Rightarrow> pystr \<Rightarrow> ('a \<times> pystr) option) \<Rightarrow> nat option \<Rightarrow> pystr \<Rightarrow> 'a piece list" where
  "re_scan m prev [] = []"
| "re_scan m prev (c # cs) =
     (case m prev (c # cs) of
        Some (x, rest) \<Rightarrow>
          if length rest \<le> length cs
          then Match x # re_scan m (Some (last (take (Suc (length cs) - length rest) (c # cs)))) rest
          else Lit c # re_scan m (Some c) cs
      | None \<Rightarrow> Lit c # re_scan m (Some c) cs)"
  by pat_completeness auto
termination
  by (relation "measure (\<lambda>(m, prev, s). length s)") auto

definition re_sub :: "(nat option \<Rightarrow> pystr \<Rightarrow> ('a \<times> pystr) option) \<Rightarrow> ('a \<Rightarrow> pystr) \<Rightarrow> pystr \<Rightarrow> pystr" where
  "re_sub m repl s = concat (map (\<lambda>p. case p of Lit c \<Rightarrow> [c] | Match x \<Rightarrow> repl x) (re_scan m None s))"

definition re_findall :: "(nat option \<Rightarrow> pystr \<Rightarrow> ('a \<times> pystr) option) \<Rightarrow> pystr \<Rightarrow> 'a list" where
  "re_findall m s = concat (map (\<lambda>p. case p of Lit c \<Rightarrow> [] | Match x \<Rightarrow> [x]) (re_scan m None s))"

text \<open>\<^verbatim>\<open>^\<close> under MULTILINE holds at the start and behind a newline.\<close>

definition bol :: "nat option \<Rightarrow> bool" where
  "bol prev \<longleftrightarrow> prev = None \<or> prev = Some 10"

text \<open>
  A greedy \<^verbatim>\<open>.*\<close> before the rest \<open>f\<close> of a pattern: it takes the characters up to the
  newline, then one fewer and so on, until \<open>f\<close> matches what is left.
\<close>

fun greedy :: "nat \<Rightarrow> (pystr \<Rightarrow> 'a option) \<Rightarrow> pystr \<Rightarrow> 'a option" where
  "greedy 0 f s = f s"
| "greedy (Suc k) f s = (case f (drop (Suc k) s) of Some r \<Rightarrow> Some r | None \<Rightarrow> greedy k f s)"

definition dotstar :: "(pystr \<Rightarrow> 'a option) \<Rightarrow> pystr \<Rightarrow> 'a option" where
  "dotstar f s = greedy (length (takeWhile (\<lambda>c. c \<noteq> 10) s)) f s"

section \<open>Images and columns\<close>

text \<open>
  The files. \<^verbatim>\<open>img_path\<close> is \<^verbatim>\<open>base_path / img_path_str\<close> when a base path is given and
  \<^verbatim>\<open>Path(img_path_str)\<close> otherwise. What the file system answers is a parameter:
  \<^verbatim>\<open>img_path.exists()\<close>, \<^verbatim>\<open>img_path.suffix\<close> and
  \<^verbatim>\<open>base64.b64encode(img_path.read_bytes()).decode()\<close>, the last for a file that can be read.
\<close>

datatype path = Joined pystr pystr | Plain pystr

record files =
  f_exists :: "path \<Rightarrow> bool"
  f_suffix :: "path \<Rightarrow> pystr"
  f_base64 :: "path \<Rightarrow> pystr"

definition image_to_data_uri :: "unicode \<Rightarrow> files \<Rightarrow> path \<Rightarrow> pystr" where
  "image_to_data_uri U F img_path =
     (let suffix = lower U (f_suffix F img_path)
      in if suffix = asc ''.svg'' then asc ''data:image/svg+xml;base64,'' @ f_base64 F img_path
         else if suffix = asc ''.jpg'' \<or> suffix = asc ''.jpeg''
           then asc ''data:image/jpeg;base64,'' @ f_base64 F img_path
         else if suffix = asc ''.png'' then asc ''data:image/png;base64,'' @ f_base64 F img_path
         else if suffix = asc ''.gif'' then asc ''data:image/gif;base64,'' @ f_base64 F img_path
         else if suffix = asc ''.webp'' then asc ''data:image/webp;base64,'' @ f_base64 F img_path
         else [])"

definition resolve :: "pystr option \<Rightarrow> pystr \<Rightarrow> path" where
  "resolve base_path img_path_str =
     (case base_path of Some b \<Rightarrow> Joined b img_path_str | None \<Rightarrow> Plain img_path_str)"

text \<open>
  \<^verbatim>\<open>!\[([^\]]*)\]\(([^)]+)\)\<close> at the head of \<open>s\<close>: the alt text runs to the first closing
  bracket, the path, which is not empty, to the first closing parenthesis.
\<close>

definition img_at :: "pystr \<Rightarrow> ((pystr \<times> pystr) \<times> pystr) option" where
  "img_at s =
     (case s of
        a # b # t \<Rightarrow>
          (if a = 33 \<and> b = 91
           then (case dropWhile (\<lambda>c. c \<noteq> 93) t of
                   x # y # u \<Rightarrow>
                     (if y = 40 \<and> takeWhile (\<lambda>c. c \<noteq> 41) u \<noteq> [] \<and> dropWhile (\<lambda>c. c \<noteq> 41) u \<noteq> []
                      then Some ((takeWhile (\<lambda>c. c \<noteq> 93) t, takeWhile (\<lambda>c. c \<noteq> 41) u),
                                 tl (dropWhile (\<lambda>c. c \<noteq> 41) u))
                      else None)
                 | _ \<Rightarrow> None)
           else None)
      | _ \<Rightarrow> None)"

definition images :: "pystr \<Rightarrow> (pystr \<times> pystr) list" where
  "images s = re_findall (\<lambda>prev. img_at) s"

text \<open>The figure of one image of a column group; nothing is written for a file that is not there.\<close>

definition column_item :: "unicode \<Rightarrow> files \<Rightarrow> pystr option \<Rightarrow> pystr \<times> pystr \<Rightarrow> pystr" where
  \<open>column_item U F base_path im =
     (case im of (alt_text, img_path_str) \<Rightarrow>
        if f_exists F (resolve base_path img_path_str)
        then (let data_uri = image_to_data_uri U F (resolve base_path img_path_str)
              in if data_uri \<noteq> []
                 then asc ''<figure class="column-item"><img src="'' @ data_uri @ asc ''" alt="''
                        @ alt_text @ asc ''"/><figcaption>'' @ alt_text @ asc ''</figcaption></figure>''
                 else [])
        else [])\<close>

definition column_html :: "unicode \<Rightarrow> files \<Rightarrow> pystr option \<Rightarrow> (pystr \<times> pystr) list \<Rightarrow> pystr" where
  \<open>column_html U F base_path ims =
     asc ''<div class="image-columns">'' @ concat (map (column_item U F base_path) ims) @ asc ''</div>''\<close>

text \<open>
  \<^verbatim>\<open><!--\s*columns\s*-->(.*?)<!--\s*/columns\s*-->\<close> under DOTALL. The lazy group takes the
  fewest characters, newlines too, that bring it before a closing marker.
\<close>

definition lit_at :: "pystr \<Rightarrow> pystr \<Rightarrow> pystr option" where
  "lit_at p s = (if startswith s p then Some (drop (length p) s) else None)"

definition marker_at :: "pystr \<Rightarrow> pystr \<Rightarrow> pystr option" where
  "marker_at word s =
     (case lit_at (asc ''<!--'') s of
        None \<Rightarrow> None
      | Some r \<Rightarrow>
          (case lit_at word (dropWhile is_space r) of
             None \<Rightarrow> None
           | Some r' \<Rightarrow> lit_at (asc ''-->'') (dropWhile is_space r')))"

fun until_close :: "pystr \<Rightarrow> (pystr \<times> pystr) option" where
  "until_close [] = None"
| "until_close (c # cs) =
     (case marker_at (asc ''/columns'') (c # cs) of
        Some rest \<Rightarrow> Some ([], rest)
      | None \<Rightarrow> (case until_close cs of None \<Rightarrow> None | Some (content, rest) \<Rightarrow> Some (c # content, rest)))"

definition columns_at :: "nat option \<Rightarrow> pystr \<Rightarrow> ((pystr \<times> pystr) \<times> pystr) option" where
  "columns_at prev s =
     (case marker_at (asc ''columns'') s of
        None \<Rightarrow> None
      | Some r \<Rightarrow>
          (case until_close r of
             None \<Rightarrow> None
           | Some (content, rest) \<Rightarrow> Some ((take (length s - length rest) s, content), rest)))"

definition process_columns :: "unicode \<Rightarrow> files \<Rightarrow> pystr option \<Rightarrow> pystr \<times> pystr \<Rightarrow> pystr" where
  "process_columns U F base_path m =
     (case m of (group0, content) \<Rightarrow>
        if images content = [] then group0 else column_html U F base_path (images content))"

definition explicit_columns :: "unicode \<Rightarrow> files \<Rightarrow> pystr option \<Rightarrow> pystr \<Rightarrow> pystr" where
  "explicit_columns U F base_path html = re_sub columns_at (process_columns U F base_path) html"

text \<open>
  \<^verbatim>\<open>^.*!\[[^\]]*\]\([^)]+\).*!\[[^\]]*\]\([^)]+\).*$\<close> under MULTILINE, at a position where
  a line starts. The last \<^verbatim>\<open>.*\<close> runs to the end of its line, where \<^verbatim>\<open>$\<close> holds.
\<close>

definition inline_at :: "nat option \<Rightarrow> pystr \<Rightarrow> (pystr \<times> pystr) option" where
  "inline_at prev s =
     (if bol prev
      then (case dotstar (\<lambda>s1. case img_at s1 of
                                None \<Rightarrow> None
                              | Some (im1, r1) \<Rightarrow>
                                  dotstar (\<lambda>s2. case img_at s2 of
                                                  None \<Rightarrow> None
                                                | Some (im2, r2) \<Rightarrow> Some (dropWhile (\<lambda>c. c \<noteq> 10) r2)) r1) s of
              None \<Rightarrow> None
            | Some rest \<Rightarrow> Some (take (length s - length rest) s, rest))
      else None)"

definition process_inline_columns :: "unicode \<Rightarrow> files \<Rightarrow> pystr option \<Rightarrow> pystr \<Rightarrow> pystr" where
  "process_inline_columns U F base_path line =
     (if length (images line) < 2 then line else column_html U F base_path (images line))"

definition inline_columns :: "unicode \<Rightarrow> files \<Rightarrow> pystr option \<Rightarrow> pystr \<Rightarrow> pystr" where
  "inline_columns U F base_path html = re_sub inline_at (process_inline_columns U F base_path) html"

text \<open>The substitution of the single images, \<^verbatim>\<open>replace_image\<close>.\<close>

definition placeholder :: "pystr \<Rightarrow> pystr" where
  \<open>placeholder alt_text =
     asc ''<figure class="missing-image"><div style="background:#f0f0f0; padding:40px; text-align:center; border:1px dashed #ccc;">[Image: ''
       @ alt_text @ asc '']</div></figure>''\<close>

definition replace_image :: "unicode \<Rightarrow> files \<Rightarrow> pystr option \<Rightarrow> pystr \<times> pystr \<Rightarrow> pystr" where
  \<open>replace_image U F base_path im =
     (case im of (alt_text, img_path_str) \<Rightarrow>
        if f_exists F (resolve base_path img_path_str)
             \<and> image_to_data_uri U F (resolve base_path img_path_str) \<noteq> []
        then asc ''<figure><img src="'' @ image_to_data_uri U F (resolve base_path img_path_str)
               @ asc ''" alt="'' @ alt_text @ asc ''" style="max-width:100%; height:auto;"/><figcaption>''
               @ alt_text @ asc ''</figcaption></figure>''
        else placeholder alt_text)\<close>

definition single_images :: "unicode \<Rightarrow> files \<Rightarrow> pystr option \<Rightarrow> pystr \<Rightarrow> pystr" where
  "single_images U F base_path html = re_sub (\<lambda>prev. img_at) (replace_image U F base_path) html"

text \<open>A file system without files.\<close>

definition no_files :: files where
  "no_files = \<lparr>f_exists = (\<lambda>p. False), f_suffix = (\<lambda>p. []), f_base64 = (\<lambda>p. [])\<rparr>"

text \<open>Notions for the properties of the image substitutions.\<close>







definition pieces_out :: "('a \<Rightarrow> pystr) \<Rightarrow> 'a piece list \<Rightarrow> pystr" where
  "pieces_out repl ps = concat (map (\<lambda>p. case p of Lit c \<Rightarrow> [c] | Match x \<Rightarrow> repl x) ps)"


section \<open>Headers, emphasis, links and rules\<close>

text \<open>
  A greedy repetition that must take one character at least: it takes \<open>k\<close> characters, then
  one fewer, down to one, until the rest \<open>f\<close> of the pattern matches what is left.
\<close>

fun greedy1 :: "nat \<Rightarrow> (pystr \<Rightarrow> 'a option) \<Rightarrow> pystr \<Rightarrow> 'a option" where
  "greedy1 0 f s = None"
| "greedy1 (Suc k) f s = (case f (drop (Suc k) s) of Some r \<Rightarrow> Some r | None \<Rightarrow> greedy1 k f s)"

text \<open>\<^verbatim>\<open>$\<close> under MULTILINE holds at the end and before a newline.\<close>

definition eol :: "pystr \<Rightarrow> bool" where
  "eol s \<longleftrightarrow> (case s of [] \<Rightarrow> True | c # r \<Rightarrow> c = 10)"

text \<open>\<^verbatim>\<open>\{#([^}]+)\}\<close> at the head of \<open>s\<close>: the name between the braces and what follows.\<close>

definition braces_at :: "pystr \<Rightarrow> (pystr \<times> pystr) option" where
  "braces_at s =
     (case s of
        a # b # t \<Rightarrow>
          (if a = 123 \<and> b = 35 \<and> takeWhile (\<lambda>c. c \<noteq> 125) t \<noteq> [] \<and> dropWhile (\<lambda>c. c \<noteq> 125) t \<noteq> []
           then Some (takeWhile (\<lambda>c. c \<noteq> 125) t, tl (dropWhile (\<lambda>c. c \<noteq> 125) t))
           else None)
      | _ \<Rightarrow> None)"

text \<open>
  \<^verbatim>\<open>^(#{1,6})\s+(.+\{#[^}]+\})$\<close> under MULTILINE. The match binds the whole match, the
  hashes and the title.
\<close>

definition anchored_header_at :: "nat option \<Rightarrow> pystr \<Rightarrow> ((pystr \<times> pystr \<times> pystr) \<times> pystr) option" where
  "anchored_header_at prev s =
     (if bol prev
      then greedy1 (min 6 (length (takeWhile (\<lambda>c. c = 35) s)))
             (\<lambda>r. greedy1 (length (takeWhile is_space r))
                (\<lambda>t. greedy1 (length (takeWhile (\<lambda>c. c \<noteq> 10) t))
                   (\<lambda>a. case braces_at a of
                          None \<Rightarrow> None
                        | Some (name, rest) \<Rightarrow>
                            if eol rest
                            then Some ((take (length s - length rest) s,
                                        take (length s - length r) s,
                                        take (length t - length rest) t), rest)
                            else None) t) r) s
      else None)"

text \<open>\<^verbatim>\<open>re.search(r'\{#([^}]+)\}', title)\<close>: the first position where the pattern matches.\<close>

fun search_braces :: "pystr \<Rightarrow> pystr option" where
  "search_braces [] = None"
| "search_braces (c # cs) =
     (case braces_at (c # cs) of Some (name, rest) \<Rightarrow> Some name | None \<Rightarrow> search_braces cs)"

definition header_with_anchor :: "pystr \<times> pystr \<times> pystr \<Rightarrow> pystr" where
  \<open>header_with_anchor m =
     (case m of (group0, hashes, title) \<Rightarrow>
        (case search_braces title of
           Some anchor \<Rightarrow>
             asc ''<h'' @ show_nat (length hashes) @ asc '' id="'' @ anchor @ asc ''">''
               @ strip_anchors title @ asc ''</h'' @ show_nat (length hashes) @ asc ''>''
         | None \<Rightarrow> group0))\<close>

definition bind_anchors :: "pystr \<Rightarrow> pystr" where
  "bind_anchors html = re_sub anchored_header_at header_with_anchor html"

text \<open>\<^verbatim>\<open>^### (.+)$\<close>, \<^verbatim>\<open>^## (.+)$\<close> and \<^verbatim>\<open>^# (.+)$\<close> under MULTILINE, for the marker given.\<close>

definition plain_header_at :: "pystr \<Rightarrow> nat option \<Rightarrow> pystr \<Rightarrow> (pystr \<times> pystr) option" where
  "plain_header_at marker prev s =
     (if bol prev \<and> startswith s marker \<and> takeWhile (\<lambda>c. c \<noteq> 10) (drop (length marker) s) \<noteq> []
      then Some (takeWhile (\<lambda>c. c \<noteq> 10) (drop (length marker) s),
                 dropWhile (\<lambda>c. c \<noteq> 10) (drop (length marker) s))
      else None)"

definition plain_headers :: "pystr \<Rightarrow> pystr" where
  "plain_headers html =
     re_sub (plain_header_at (asc ''# '')) (\<lambda>g. asc ''<h1>'' @ g @ asc ''</h1>'')
       (re_sub (plain_header_at (asc ''## '')) (\<lambda>g. asc ''<h2>'' @ g @ asc ''</h2>'')
          (re_sub (plain_header_at (asc ''### '')) (\<lambda>g. asc ''<h3>'' @ g @ asc ''</h3>'') html))"

text \<open>
  A lazy \<^verbatim>\<open>(.+?)\<close> before a closing marker: the fewest characters, one at least and no
  newline, that bring it before the marker.
\<close>

fun lazy_until :: "pystr \<Rightarrow> pystr \<Rightarrow> (pystr \<times> pystr) option" where
  "lazy_until mk [] = None"
| "lazy_until mk (c # cs) =
     (if c = 10 then None
      else if startswith cs mk then Some ([c], drop (length mk) cs)
      else (case lazy_until mk cs of None \<Rightarrow> None | Some (g, rest) \<Rightarrow> Some (c # g, rest)))"

definition delimited_at :: "pystr \<Rightarrow> nat option \<Rightarrow> pystr \<Rightarrow> (pystr \<times> pystr) option" where
  "delimited_at mk prev s = (if startswith s mk then lazy_until mk (drop (length mk) s) else None)"

text \<open>\<^verbatim>\<open>(?<!\*)\*([^*\n]+?)\*(?!\*)\<close>.\<close>

definition em_at :: "nat option \<Rightarrow> pystr \<Rightarrow> (pystr \<times> pystr) option" where
  "em_at prev s =
     (if prev = Some 42 then None
      else (case s of
              [] \<Rightarrow> None
            | a # r \<Rightarrow>
                (if a = 42 \<and> takeWhile (\<lambda>c. c \<noteq> 42 \<and> c \<noteq> 10) r \<noteq> []
                 then (case dropWhile (\<lambda>c. c \<noteq> 42 \<and> c \<noteq> 10) r of
                         [] \<Rightarrow> None
                       | b # r2 \<Rightarrow>
                           if b = 42 \<and> (case r2 of [] \<Rightarrow> True | d # _ \<Rightarrow> d \<noteq> 42)
                           then Some (takeWhile (\<lambda>c. c \<noteq> 42 \<and> c \<noteq> 10) r, r2)
                           else None)
                 else None)))"

definition emphasis :: "pystr \<Rightarrow> pystr" where
  "emphasis html =
     re_sub em_at (\<lambda>g. asc ''<em>'' @ g @ asc ''</em>'')
       (re_sub (delimited_at (asc ''**'')) (\<lambda>g. asc ''<strong>'' @ g @ asc ''</strong>'')
          (re_sub (delimited_at (asc ''***'')) (\<lambda>g. asc ''<strong><em>'' @ g @ asc ''</em></strong>'') html))"

text \<open>\<^verbatim>\<open>\[([^\]]+)\]\(([^)]+)\)\<close>.\<close>

definition link_at :: "nat option \<Rightarrow> pystr \<Rightarrow> ((pystr \<times> pystr) \<times> pystr) option" where
  "link_at prev s =
     (case s of
        [] \<Rightarrow> None
      | a # t \<Rightarrow>
          (if a = 91 \<and> takeWhile (\<lambda>c. c \<noteq> 93) t \<noteq> []
           then (case dropWhile (\<lambda>c. c \<noteq> 93) t of
                   x # y # u \<Rightarrow>
                     (if y = 40 \<and> takeWhile (\<lambda>c. c \<noteq> 41) u \<noteq> [] \<and> dropWhile (\<lambda>c. c \<noteq> 41) u \<noteq> []
                      then Some ((takeWhile (\<lambda>c. c \<noteq> 93) t, takeWhile (\<lambda>c. c \<noteq> 41) u),
                                 tl (dropWhile (\<lambda>c. c \<noteq> 41) u))
                      else None)
                 | _ \<Rightarrow> None)
           else None))"

definition links :: "pystr \<Rightarrow> pystr" where
  \<open>links html =
     re_sub link_at (\<lambda>(text, url). asc ''<a href="'' @ url @ asc ''">'' @ text @ asc ''</a>'') html\<close>

text \<open>\<^verbatim>\<open>^---+$\<close> under MULTILINE.\<close>

definition rule_at :: "nat option \<Rightarrow> pystr \<Rightarrow> (unit \<times> pystr) option" where
  "rule_at prev s =
     (if bol prev \<and> 3 \<le> length (takeWhile (\<lambda>c. c = 45) s) \<and> eol (dropWhile (\<lambda>c. c = 45) s)
      then Some ((), dropWhile (\<lambda>c. c = 45) s)
      else None)"

definition rules :: "pystr \<Rightarrow> pystr" where
  "rules html = re_sub rule_at (\<lambda>u. asc ''<hr/>'') html"

section \<open>Blockquotes and lists\<close>

record quote_state =
  q_result :: "pystr list"
  in_blockquote :: bool
  blockquote_content :: "pystr list"

definition quote_html :: "pystr list \<Rightarrow> pystr" where
  "quote_html content = asc ''<blockquote>'' @ join (asc ''<br/>'') content @ asc ''</blockquote>''"

definition quote_step :: "quote_state \<Rightarrow> pystr \<Rightarrow> quote_state" where
  "quote_step st line =
     (if startswith (strip line) (asc ''> '')
      then \<lparr>q_result = q_result st, in_blockquote = True,
            blockquote_content =
              (if in_blockquote st then blockquote_content st else []) @ [drop 2 (strip line)]\<rparr>
      else if in_blockquote st
      then \<lparr>q_result = q_result st @ [quote_html (blockquote_content st)] @ [line],
            in_blockquote = False, blockquote_content = []\<rparr>
      else st\<lparr>q_result := q_result st @ [line]\<rparr>)"

definition blockquotes :: "pystr \<Rightarrow> pystr" where
  "blockquotes html =
     (let st = foldl quote_step \<lparr>q_result = [], in_blockquote = False, blockquote_content = []\<rparr>
                 (split_on 10 html)
      in join [10] (if in_blockquote st then q_result st @ [quote_html (blockquote_content st)]
                    else q_result st))"

text \<open>
  \<^verbatim>\<open>re.match(r'^\d+\.\s', stripped)\<close>, and what \<^verbatim>\<open>re.sub(r'^\d+\.\s', '', stripped)\<close> leaves.
\<close>

definition numbered :: "unicode \<Rightarrow> pystr \<Rightarrow> pystr option" where
  "numbered U stripped =
     (if takeWhile (is_digit U) stripped \<noteq> []
      then (case dropWhile (is_digit U) stripped of
              a # b # r \<Rightarrow> if a = 46 \<and> is_space b then Some r else None
            | _ \<Rightarrow> None)
      else None)"

record list_state =
  l_result :: "pystr list"
  in_ul :: bool
  in_ol :: bool

definition list_step :: "unicode \<Rightarrow> list_state \<Rightarrow> pystr \<Rightarrow> list_state" where
  "list_step U st line =
     (if startswith (strip line) (asc ''- '') \<or> startswith (strip line) (asc ''* '')
      then \<lparr>l_result = l_result st @ (if in_ol st then [asc ''</ol>''] else [])
                @ (if \<not> in_ul st then [asc ''<ul>''] else [])
                @ [asc ''<li>'' @ drop 2 (strip line) @ asc ''</li>''],
            in_ul = True, in_ol = False\<rparr>
      else (case numbered U (strip line) of
              Some content \<Rightarrow>
                \<lparr>l_result = l_result st @ (if in_ul st then [asc ''</ul>''] else [])
                    @ (if \<not> in_ol st then [asc ''<ol>''] else [])
                    @ [asc ''<li>'' @ content @ asc ''</li>''],
                 in_ul = False, in_ol = True\<rparr>
            | None \<Rightarrow>
                \<lparr>l_result = l_result st @ (if in_ul st then [asc ''</ul>''] else [])
                    @ (if in_ol st then [asc ''</ol>''] else []) @ [line],
                 in_ul = False, in_ol = False\<rparr>))"

definition lists :: "unicode \<Rightarrow> pystr \<Rightarrow> pystr" where
  "lists U html =
     (let st = foldl (list_step U) \<lparr>l_result = [], in_ul = False, in_ol = False\<rparr> (split_on 10 html)
      in join [10] (l_result st @ (if in_ul st then [asc ''</ul>''] else [])
                      @ (if in_ol st then [asc ''</ol>''] else [])))"

section \<open>The pipeline\<close>

definition markdown_to_html_internal :: "unicode \<Rightarrow> files \<Rightarrow> pystr option \<Rightarrow> pystr \<Rightarrow> pystr" where
  "markdown_to_html_internal U F base_path markdown =
     paragraphs (lists U (tables (rules (links (emphasis (plain_headers (blockquotes
       (single_images U F base_path (strip_anchors (bind_anchors
          (inline_columns U F base_path (explicit_columns U F base_path markdown))))))))))))"

definition markdown_to_html :: "unicode \<Rightarrow> files \<Rightarrow> pystr option \<Rightarrow> bool \<Rightarrow> pystr \<Rightarrow> pystr" where
  \<open>markdown_to_html U F base_path include_toc markdown =
     (if include_toc
      then (case generate_toc U markdown of
              (toc_md, modified) \<Rightarrow>
                (if toc_md \<noteq> []
                 then asc ''<nav class="toc">'' @ markdown_to_html_internal U F base_path toc_md
                        @ asc ''</nav>''
                 else [])
                @ markdown_to_html_internal U F base_path modified)
      else markdown_to_html_internal U F base_path markdown)\<close>

section \<open>The sections of figures and of diagrams in \<^verbatim>\<open>generate_html_report\<close>\<close>

text \<open>
  A descriptor is a dictionary from keys to strings. \<^verbatim>\<open>img['path']\<close> raises \<^verbatim>\<open>KeyError\<close> for a
  descriptor without a path; \<^verbatim>\<open>img.get('caption', '')\<close> is the empty string for one without
  a caption.
\<close>

type_synonym descriptor = "pystr \<rightharpoonup> pystr"

datatype error = KeyError pystr

definition caption_of :: "descriptor \<Rightarrow> pystr" where
  "caption_of img = (case img (asc ''caption'') of None \<Rightarrow> [] | Some c \<Rightarrow> c)"

text \<open>
  What one descriptor adds to its section, a figure with the caption and the number \<open>i + 1\<close>:
  the literal of the source begins with a newline and indents its lines by 20 and 24 spaces.
\<close>

definition figure_html :: "pystr \<Rightarrow> nat \<Rightarrow> pystr \<Rightarrow> pystr \<Rightarrow> pystr" where
  \<open>figure_html label i data_uri caption =
     [10] @ replicate 20 32 @ asc ''<figure>'' @ [10]
     @ replicate 24 32 @ asc ''<img src="'' @ data_uri @ asc ''" alt="'' @ caption @ asc ''"/>'' @ [10]
     @ replicate 24 32 @ asc ''<figcaption>'' @ label @ asc '' '' @ show_nat (i + 1) @ asc '': ''
       @ caption @ asc ''</figcaption>'' @ [10]
     @ replicate 20 32 @ asc ''</figure>'' @ [10]
     @ replicate 20 32\<close>

text \<open>
  The loop \<^verbatim>\<open>for i, img in enumerate(images)\<close>, with the text built so far; the loop over
  the diagrams is the same with the label \<^verbatim>\<open>Diagram\<close>.
\<close>

fun section_loop :: "unicode \<Rightarrow> files \<Rightarrow> pystr \<Rightarrow> nat \<Rightarrow> descriptor list \<Rightarrow> pystr \<Rightarrow> error + pystr" where
  "section_loop U F label i [] html = Inr html"
| "section_loop U F label i (img # rest) html =
     (case img (asc ''path'') of
        None \<Rightarrow> Inl (KeyError (asc ''path''))
      | Some p \<Rightarrow>
          section_loop U F label (i + 1) rest
            (if f_exists F (Plain p)
             then (if lower U (f_suffix F (Plain p)) = asc ''.svg''
                   then html @ figure_html label i (image_to_data_uri U F (Plain p)) (caption_of img)
                   else html)
             else html))"

definition images_section :: "unicode \<Rightarrow> files \<Rightarrow> descriptor list \<Rightarrow> error + pystr" where
  \<open>images_section U F descriptors =
     (if descriptors \<noteq> []
      then (case section_loop U F (asc ''Figure'') 0 descriptors
                   (asc ''<div class="images-section"><h2>Figures</h2>'') of
              Inl e \<Rightarrow> Inl e
            | Inr html \<Rightarrow> Inr (html @ asc ''</div>''))
      else Inr [])\<close>

definition diagrams_section :: "unicode \<Rightarrow> files \<Rightarrow> descriptor list \<Rightarrow> error + pystr" where
  \<open>diagrams_section U F descriptors =
     (if descriptors \<noteq> []
      then (case section_loop U F (asc ''Diagram'') 0 descriptors
                   (asc ''<div class="diagrams-section"><h2>Diagrams</h2>'') of
              Inl e \<Rightarrow> Inl e
            | Inr html \<Rightarrow> Inr (html @ asc ''</div>''))
      else Inr [])\<close>

text \<open>
  What a descriptor with a path adds to its section: its figure when the file is there and
  its suffix is \<^verbatim>\<open>.svg\<close> in small or capital letters, and nothing otherwise.
\<close>

definition embedded :: "unicode \<Rightarrow> files \<Rightarrow> pystr \<Rightarrow> nat \<Rightarrow> descriptor \<Rightarrow> pystr" where
  "embedded U F label i img =
     (case img (asc ''path'') of
        None \<Rightarrow> []
      | Some p \<Rightarrow>
          if f_exists F (Plain p) \<and> lower U (f_suffix F (Plain p)) = asc ''.svg''
          then figure_html label i (asc ''data:image/svg+xml;base64,'' @ f_base64 F (Plain p)) (caption_of img)
          else [])"

text \<open>A file system with the one file \<^verbatim>\<open>a.png\<close>.\<close>

definition one_png :: files where
  "one_png = \<lparr>f_exists = (\<lambda>p. p = Plain (asc ''a.png'')), f_suffix = (\<lambda>p. asc ''.png''),
              f_base64 = (\<lambda>p. asc ''AA=='')\<rparr>"

section \<open>Properties of splitting and joining\<close>

lemma split_on_nonempty: "split_on d s \<noteq> []"
  by (induction s) (auto split: list.splits)

lemma split_on_no_sep: "l \<in> set (split_on d s) \<Longrightarrow> d \<notin> set l"
proof (induction s arbitrary: l)
  case Nil
  then show ?case by simp
next
  case (Cons c cs)
  then show ?case
    by (cases "split_on d cs") (auto split: if_splits)
qed

lemma split_on_no_sep_id: "d \<notin> set l \<Longrightarrow> split_on d l = [l]"
  by (induction l) auto

lemma split_on_append: "d \<notin> set l \<Longrightarrow> split_on d (l @ d # s) = l # split_on d s"
  by (induction l) auto

lemma split_on_join_Cons:
  "\<forall>l \<in> set (x # ls). d \<notin> set l \<Longrightarrow> split_on d (join [d] (x # ls)) = x # ls"
proof (induction ls arbitrary: x)
  case Nil
  then show ?case by (simp add: split_on_no_sep_id)
next
  case (Cons y ys)
  have "split_on d (join [d] (y # ys)) = y # ys"
    using Cons.prems by (intro Cons.IH) simp
  then show ?case using Cons.prems by (simp add: split_on_append)
qed

lemma split_on_join: "ls \<noteq> [] \<Longrightarrow> \<forall>l \<in> set ls. d \<notin> set l \<Longrightarrow> split_on d (join [d] ls) = ls"
proof (cases ls)
  case Nil
  assume "ls \<noteq> []"
  with Nil show ?thesis by simp
next
  case (Cons x xs)
  assume "\<forall>l \<in> set ls. d \<notin> set l"
  then show ?thesis unfolding Cons by (rule split_on_join_Cons)
qed

lemma join_split_on: "join [d] (split_on d s) = s"
proof (induction s)
  case Nil
  then show ?case by simp
next
  case (Cons c cs)
  show ?case
  proof (cases "split_on d cs")
    case Nil
    then show ?thesis using split_on_nonempty [of d cs] by simp
  next
    case (Cons l ls)
    then show ?thesis using Cons.IH by (cases ls) auto
  qed
qed

section \<open>Properties of \<^verbatim>\<open>generate_toc\<close>\<close>

lemma set_strip: "set (strip s) \<subseteq> set s"
  by (auto simp: strip_def dest!: set_dropWhileD)

lemma set_tl_subset: "set (tl xs) \<subseteq> set xs"
  by (cases xs) auto

lemma anchor_at_set: "anchor_at s = Some (a, r) \<Longrightarrow> set r \<subseteq> set s"
proof -
  assume h: "anchor_at s = Some (a, r)"
  obtain x y t where d: "dropWhile is_space s = x # y # t"
    using h by (auto simp: anchor_at_def split: list.splits)
  have r: "r = tl (dropWhile (\<lambda>c. c \<noteq> 125) t)" and ne: "dropWhile (\<lambda>c. c \<noteq> 125) t \<noteq> []"
    using h d by (auto simp: anchor_at_def split: if_splits)
  have "set r \<subseteq> set (dropWhile (\<lambda>c. c \<noteq> 125) t)"
    unfolding r by (rule set_tl_subset)
  also have "\<dots> \<subseteq> set t" by (auto dest: set_dropWhileD)
  also have "\<dots> \<subseteq> set (dropWhile is_space s)" unfolding d by auto
  also have "\<dots> \<subseteq> set s" by (auto dest: set_dropWhileD)
  finally show ?thesis .
qed

lemma set_strip_anchors: "set (strip_anchors s) \<subseteq> set s"
proof (induction s rule: strip_anchors.induct)
  case 1
  then show ?case by simp
next
  case (2 c cs)
  show ?case
  proof (cases "anchor_at (c # cs)")
    case None
    then show ?thesis using 2 by auto
  next
    case (Some p)
    obtain a r where p: "p = (a, r)" by (cases p)
    have "set (strip_anchors r) \<subseteq> set r"
      using 2 Some p by simp
    then show ?thesis using anchor_at_set [of "c # cs" a r] Some p by auto
  qed
qed

lemma not_space_hyphen: "\<not> is_space 45"
  by (simp add: is_space_def)

lemma hyphenate_no_space: "c \<in> set (hyphenate s) \<Longrightarrow> \<not> is_space c"
proof (induction s arbitrary: c rule: hyphenate.induct)
  case 1
  then show ?case by simp
next
  case (2 x xs)
  show ?case
  proof (cases "is_space x")
    case True
    then show ?thesis using 2(1) [OF True] 2(3) not_space_hyphen by auto
  next
    case False
    then show ?thesis using 2(2) [OF False] 2(3) by auto
  qed
qed

lemma show_nat_digits: "c \<in> set (show_nat n) \<Longrightarrow> 48 \<le> c \<and> c \<le> 57"
proof (induction n arbitrary: c rule: show_nat.induct)
  case (1 n)
  show ?case
  proof (cases "n < 10")
    case True
    then show ?thesis using 1(2) by (simp add: show_nat.simps [of n])
  next
    case False
    have "c \<in> set (show_nat (n div 10)) \<or> c = 48 + n mod 10"
      using 1(2) False by (auto simp: show_nat.simps [of n])
    then show ?thesis using 1(1) [OF False] by auto
  qed
qed

lemma collisions_snoc:
  "collisions U (ls @ [l]) s = collisions U ls s + (if derives U s l then 1 else 0)"
  by (simp add: collisions_def)

lemma toc_step_eq:
  assumes "\<And>s. header_counts st s = (if collisions U ls s = 0 then None else Some (collisions U ls s - 1))"
  shows "toc_step U st l =
     \<lparr>toc_items = toc_items st @ new_item U ls l,
      modified_lines = modified_lines st @ [new_line U ls l],
      header_counts = (case header_of U l of None \<Rightarrow> header_counts st
         | Some (h, tc, s) \<Rightarrow> (header_counts st)(s \<mapsto> collisions U ls s))\<rparr>"
proof (cases "match_header l")
  case None
  then show ?thesis
    by (simp add: toc_step_def new_item_def new_line_def header_of_def)
next
  case (Some p)
  obtain h g where p: "p = (h, g)" by (cases p)
  show ?thesis
    using Some p assms [of "slug U (strip_anchors (strip g))"]
    by (simp add: toc_step_def new_item_def new_line_def header_of_def nth_anchor_def Let_def)
qed

lemma upt_snoc_map:
  "map (\<lambda>i. f (take i (ls @ [l])) ((ls @ [l]) ! i)) [0..<length (ls @ [l])] =
   map (\<lambda>i. f (take i ls) (ls ! i)) [0..<length ls] @ [f ls l]"
  by (simp add: nth_append)

lemma toc_loop_inv:
  "toc_items (toc_loop U ls) = concat (map (\<lambda>i. new_item U (take i ls) (ls ! i)) [0..<length ls]) \<and>
   modified_lines (toc_loop U ls) = map (\<lambda>i. new_line U (take i ls) (ls ! i)) [0..<length ls] \<and>
   (\<forall>s. header_counts (toc_loop U ls) s =
      (if collisions U ls s = 0 then None else Some (collisions U ls s - 1)))"
proof (induction ls rule: rev_induct)
  case Nil
  then show ?case by (simp add: toc_loop_def toc_init_def collisions_def)
next
  case (snoc l ls)
  let ?st = "toc_loop U ls"
  have hc: "\<And>s. header_counts ?st s = (if collisions U ls s = 0 then None else Some (collisions U ls s - 1))"
    using snoc by simp
  have step: "toc_loop U (ls @ [l]) = toc_step U ?st l"
    by (simp add: toc_loop_def)
  note eq = toc_step_eq [of ?st U ls l, OF hc]
  have a: "toc_items (toc_loop U (ls @ [l])) =
      concat (map (\<lambda>i. new_item U (take i (ls @ [l])) ((ls @ [l]) ! i)) [0..<length (ls @ [l])])"
    using snoc by (simp only: upt_snoc_map) (simp add: step eq)
  have b: "modified_lines (toc_loop U (ls @ [l])) =
      map (\<lambda>i. new_line U (take i (ls @ [l])) ((ls @ [l]) ! i)) [0..<length (ls @ [l])]"
    using snoc by (simp only: upt_snoc_map) (simp add: step eq)
  have c: "header_counts (toc_loop U (ls @ [l])) s =
      (if collisions U (ls @ [l]) s = 0 then None else Some (collisions U (ls @ [l]) s - 1))" for s
  proof (cases "header_of U l")
    case None
    then show ?thesis using hc [of s] by (simp add: step eq collisions_snoc derives_def)
  next
    case (Some t)
    obtain h tc s' where t: "t = (h, tc, s')" by (cases t)
    show ?thesis using hc [of s] Some t
      by (simp add: step eq collisions_snoc derives_def)
  qed
  show ?case using a b c by blast
qed

lemma dot_plus_end_set: "dot_plus_end r = Some b \<Longrightarrow> set b \<subseteq> set r"
  by (auto simp: dot_plus_end_def Let_def split: if_splits dest: set_takeWhileD)

lemma ws_then_title_set: "ws_then_title k r = Some t \<Longrightarrow> set t \<subseteq> set r"
proof (induction k)
  case 0
  then show ?case by simp
next
  case (Suc k)
  show ?case
  proof (cases "dot_plus_end (drop (Suc k) r)")
    case None
    then show ?thesis using Suc by simp
  next
    case (Some b)
    then have "t = b" using Suc.prems by simp
    then show ?thesis using dot_plus_end_set [OF Some] set_drop_subset [of "Suc k" r] by blast
  qed
qed

lemma try_hashes_set: "try_hashes k line = Some (h, g) \<Longrightarrow> set h \<subseteq> set line \<and> set g \<subseteq> set line"
proof -
  assume a: "try_hashes k line = Some (h, g)"
  then obtain t where t: "ws_then_title (length (takeWhile is_space (drop k line))) (drop k line) = Some t"
    and hg: "h = take k line" "g = t"
    by (auto simp: try_hashes_def Let_def split: if_splits)
  show ?thesis
    using ws_then_title_set [OF t] set_drop_subset [of k line] set_take_subset [of k line] hg by blast
qed

lemma match_header_set: "match_header line = Some (h, g) \<Longrightarrow> set h \<subseteq> set line \<and> set g \<subseteq> set line"
  by (auto simp: match_header_def split: option.splits dest: try_hashes_set)

lemma slug_no_space: "c \<in> set (slug U t) \<Longrightarrow> \<not> is_space c"
  unfolding slug_def by (rule hyphenate_no_space)

lemma is_space_nl: "is_space 10"
  by (simp add: is_space_def)

lemma nl_not_in_lit:
  "10 \<notin> set (asc '' '')" "10 \<notin> set (asc '' {#'')" "10 \<notin> set (asc ''}'')" "10 \<notin> set (asc ''-'')"
  "10 \<notin> set (asc ''  '')" "10 \<notin> set (asc ''- ['')" "10 \<notin> set (asc ''](#'')" "10 \<notin> set (asc '')'')"
  by (simp_all add: asc_def)

lemma nth_anchor_no_nl: "10 \<notin> set (nth_anchor (slug U t) k)"
  using slug_no_space [of 10 U t] is_space_nl show_nat_digits [of 10 k]
  by (auto simp: nth_anchor_def nl_not_in_lit)

lemma header_of_no_nl:
  assumes "header_of U line = Some (h, tc, s)" "10 \<notin> set line"
  shows "10 \<notin> set h" "10 \<notin> set tc" "s = slug U tc"
proof -
  obtain g where m: "match_header line = Some (h, g)" and tc: "tc = strip_anchors (strip g)"
    and s: "s = slug U tc"
    using assms(1) by (auto simp: header_of_def split: option.splits)
  show "10 \<notin> set h" using match_header_set [OF m] assms(2) by blast
  show "10 \<notin> set tc"
    using match_header_set [OF m] assms(2) set_strip_anchors [of "strip g"] set_strip [of g] tc
    by blast
  show "s = slug U tc" by (rule s)
qed

lemma new_line_no_nl: "10 \<notin> set line \<Longrightarrow> 10 \<notin> set (new_line U before line)"
proof (cases "header_of U line")
  case None
  assume "10 \<notin> set line"
  then show ?thesis using None by (simp add: new_line_def)
next
  case (Some p)
  assume nl: "10 \<notin> set line"
  obtain h tc s where p: "p = (h, tc, s)" by (cases p)
  note f = header_of_no_nl [OF Some [unfolded p] nl]
  show ?thesis
    using f(1,2) nth_anchor_no_nl [of U tc "collisions U before s"]
    by (simp add: new_line_def Some p nl_not_in_lit f(3))
qed

lemma new_item_no_nl: "10 \<notin> set line \<Longrightarrow> x \<in> set (new_item U before line) \<Longrightarrow> 10 \<notin> set x"
proof (cases "header_of U line")
  case None
  assume "x \<in> set (new_item U before line)"
  then show ?thesis using None by (simp add: new_item_def)
next
  case (Some p)
  assume nl: "10 \<notin> set line" and x: "x \<in> set (new_item U before line)"
  obtain h tc s where p: "p = (h, tc, s)" by (cases p)
  note f = header_of_no_nl [OF Some [unfolded p] nl]
  show ?thesis
    using f(1,2) nth_anchor_no_nl [of U tc "collisions U before s"] x
    by (auto simp: new_item_def Some p nl_not_in_lit f(3))
qed

lemma generate_toc_snd:
  "snd (generate_toc U md) =
     join [10] (map (\<lambda>i. new_line U (take i (split_on 10 md)) (split_on 10 md ! i))
                  [0..<length (split_on 10 md)])"
proof (cases "toc_items (toc_loop U (split_on 10 md)) = []")
  case False
  then have "snd (generate_toc U md) = join [10] (modified_lines (toc_loop U (split_on 10 md)))"
    by (simp add: generate_toc_def Let_def)
  then show ?thesis by (simp add: toc_loop_inv)
next
  case True
  let ?ls = "split_on 10 md"
  have "new_line U (take i ?ls) (?ls ! i) = ?ls ! i" if "i < length ?ls" for i
  proof -
    have "new_item U (take i ?ls) (?ls ! i) = []"
      using True that by (simp add: toc_loop_inv)
    then have "header_of U (?ls ! i) = None"
      by (auto simp: new_item_def split: option.splits)
    then show ?thesis by (simp add: new_line_def)
  qed
  then have "map (\<lambda>i. new_line U (take i ?ls) (?ls ! i)) [0..<length ?ls] = ?ls"
    by (intro nth_equalityI) simp_all
  then show ?thesis using True by (simp add: generate_toc_def Let_def join_split_on)
qed

lemma generate_toc_lines:
  "split_on 10 (snd (generate_toc U md)) =
     map (\<lambda>i. new_line U (take i (split_on 10 md)) (split_on 10 md ! i))
       [0..<length (split_on 10 md)]"
  unfolding generate_toc_snd
proof (rule split_on_join)
  show "map (\<lambda>i. new_line U (take i (split_on 10 md)) (split_on 10 md ! i))
       [0..<length (split_on 10 md)] \<noteq> []"
    using split_on_nonempty [of 10 md] by simp
  show "\<forall>l\<in>set (map (\<lambda>i. new_line U (take i (split_on 10 md)) (split_on 10 md ! i))
       [0..<length (split_on 10 md)]). 10 \<notin> set l"
    using split_on_no_sep [of _ 10 md] by (auto intro!: new_line_no_nl)
qed

lemma length_new_item: "length (new_item U before l) = (if header_of U l = None then 0 else 1)"
  by (auto simp: new_item_def split: option.splits)

lemma items_before:
  "i \<le> length ls \<Longrightarrow>
   length (concat (map (\<lambda>j. new_item U (take j ls) (ls ! j)) [0..<i])) = headers_in U (take i ls)"
proof (induction i)
  case 0
  then show ?case by (simp add: headers_in_def)
next
  case (Suc i)
  then have "take (Suc i) ls = take i ls @ [ls ! i]"
    by (simp add: take_Suc_conv_app_nth)
  then show ?case using Suc by (simp add: headers_in_def length_new_item)
qed

lemma item_at:
  assumes "i < length ls"
  shows "concat (map (\<lambda>j. new_item U (take j ls) (ls ! j)) [0..<length ls]) =
         concat (map (\<lambda>j. new_item U (take j ls) (ls ! j)) [0..<i]) @ new_item U (take i ls) (ls ! i) @
         concat (map (\<lambda>j. new_item U (take j ls) (ls ! j)) [Suc i..<length ls])"
proof -
  have "[0..<length ls] = [0..<i] @ i # [Suc i..<length ls]"
    using assms upt_add_eq_append [of 0 i "length ls - i"] upt_conv_Cons [of i "length ls"]
    by simp
  then have "map (\<lambda>j. new_item U (take j ls) (ls ! j)) [0..<length ls] =
      map (\<lambda>j. new_item U (take j ls) (ls ! j)) [0..<i] @ new_item U (take i ls) (ls ! i) #
      map (\<lambda>j. new_item U (take j ls) (ls ! j)) [Suc i..<length ls]"
    by (simp only: map_append list.map)
  then show ?thesis by (simp only: concat_append concat.simps)
qed

lemma rewritten_line_at:
  assumes "i < length (split_on 10 md)"
    and "header_of U (split_on 10 md ! i) = Some (hashes, title, s)"
  shows "split_on 10 (snd (generate_toc U md)) ! i =
           hashes @ asc '' '' @ title @ asc '' {#'' @
           nth_anchor s (collisions U (take i (split_on 10 md)) s) @ asc ''}''"
proof -
  have "split_on 10 (snd (generate_toc U md)) ! i =
      new_line U (take i (split_on 10 md)) (split_on 10 md ! i)"
    unfolding generate_toc_lines using assms(1) by simp
  then show ?thesis by (simp add: new_line_def assms(2))
qed

lemma toc_item_at:
  assumes "i < length ls"
    and "header_of U (ls ! i) = Some (hashes, title, s)"
  shows "toc_items (toc_loop U ls) ! headers_in U (take i ls) =
           concat (replicate (length hashes - 2) (asc ''  '')) @ asc ''- ['' @ title @ asc ''](#'' @
           nth_anchor s (collisions U (take i ls) s) @ asc '')''"
proof -
  let ?f = "\<lambda>j. new_item U (take j ls) (ls ! j)"
  let ?pre = "concat (map ?f [0..<i])"
  let ?post = "concat (map ?f [Suc i..<length ls])"
  have len: "length ?pre = headers_in U (take i ls)"
    using assms(1) by (intro items_before) simp
  have "toc_items (toc_loop U ls) = ?pre @ ?f i @ ?post"
    using toc_loop_inv [of U ls] item_at [OF assms(1), of U] by simp
  then have "toc_items (toc_loop U ls) ! headers_in U (take i ls) = (?f i @ ?post) ! 0"
    using len nth_append_length_plus [of ?pre "?f i @ ?post" 0] by simp
  also have "?f i = [concat (replicate (length hashes - 2) (asc ''  '')) @ asc ''- ['' @ title @ asc ''](#'' @
           nth_anchor s (collisions U (take i ls) s) @ asc '')'']"
    by (simp add: new_item_def assms(2))
  finally show ?thesis by simp
qed

section \<open>Properties of the table loop\<close>

definition flush :: "table_state \<Rightarrow> pystr list" where
  "flush st = (if table_buffer st \<noteq> [] then result_lines st @ [convert_table (table_buffer st)]
               else result_lines st)"

definition clean :: "pystr list \<Rightarrow> table_state" where
  "clean res = \<lparr>result_lines = res, table_buffer = [], in_table = False\<rparr>"

lemma table_lines_flush: "table_lines ls = flush (foldl table_step (clean []) ls)"
  by (simp add: table_lines_def flush_def clean_def Let_def)

lemma table_step_row:
  "is_row l \<Longrightarrow> table_step st l = st\<lparr>table_buffer := table_buffer st @ [strip l], in_table := True\<rparr>"
  by (simp add: table_step_def is_row_def Let_def)

lemma table_step_other:
  "\<not> is_row b \<Longrightarrow> in_table st = (table_buffer st \<noteq> []) \<Longrightarrow> table_step st b = clean (flush st @ [b])"
  by (simp add: table_step_def is_row_def Let_def flush_def clean_def)

lemma table_inv: "in_table (foldl table_step (clean res) ls) = (table_buffer (foldl table_step (clean res) ls) \<noteq> [])"
proof (induction ls rule: rev_induct)
  case Nil
  then show ?case by (simp add: clean_def)
next
  case (snoc l ls)
  then show ?case
    by (cases "is_row l") (simp_all add: table_step_row table_step_other clean_def)
qed

lemma table_fold_prefix:
  "foldl table_step (clean res) ls =
     (foldl table_step (clean []) ls)\<lparr>result_lines := res @ result_lines (foldl table_step (clean []) ls)\<rparr>"
proof (induction ls rule: rev_induct)
  case Nil
  then show ?case by (simp add: clean_def)
next
  case (snoc l ls)
  show ?case
    unfolding foldl_append foldl.simps
    by (subst snoc.IH) (simp add: table_step_def Let_def)
qed

lemma flush_prefix: "flush (foldl table_step (clean res) ls) = res @ table_lines ls"
  by (subst table_fold_prefix) (simp add: table_lines_flush flush_def)

lemma table_pre:
  assumes "pre = [] \<or> \<not> is_row (last pre)"
  shows "foldl table_step (clean []) pre = clean (table_lines pre)"
proof (cases pre rule: rev_cases)
  case Nil
  then show ?thesis by (simp add: table_lines_flush flush_def clean_def)
next
  case (snoc p b)
  then have b: "\<not> is_row b" using assms by simp
  have "foldl table_step (clean []) pre = clean (flush (foldl table_step (clean []) p) @ [b])"
    unfolding snoc using table_step_other [OF b table_inv] by simp
  moreover have "table_lines pre = flush (foldl table_step (clean []) p) @ [b]"
    unfolding table_lines_flush calculation by (simp add: flush_def clean_def)
  ultimately show ?thesis by simp
qed

lemma table_run:
  "\<forall>l \<in> set run. is_row l \<Longrightarrow>
   foldl table_step st run =
     st\<lparr>table_buffer := table_buffer st @ map strip run, in_table := (in_table st \<or> run \<noteq> [])\<rparr>"
proof (induction run rule: rev_induct)
  case Nil
  then show ?case by simp
next
  case (snoc l run)
  then show ?case by (simp add: table_step_row)
qed

lemma table_post:
  assumes "post = [] \<or> \<not> is_row (hd post)" "buf \<noteq> []"
  shows "flush (foldl table_step \<lparr>result_lines = res, table_buffer = buf, in_table = True\<rparr> post) =
         res @ [convert_table buf] @ table_lines post"
proof (cases post)
  case Nil
  then show ?thesis using assms(2) by (simp add: flush_def table_lines_flush clean_def)
next
  case (Cons b ps)
  then have b: "\<not> is_row b" using assms by simp
  have 1: "table_step \<lparr>result_lines = res, table_buffer = buf, in_table = True\<rparr> b =
      clean (res @ [convert_table buf] @ [b])"
    using assms(2) by (subst table_step_other [OF b]) (simp_all add: flush_def)
  have 2: "table_step (clean []) b = clean [b]"
    by (subst table_step_other [OF b]) (simp_all add: flush_def clean_def)
  have "table_lines post = [b] @ table_lines ps"
    unfolding Cons table_lines_flush [of "b # ps"] foldl.simps 2 by (rule flush_prefix)
  then show ?thesis
    unfolding Cons foldl.simps 1 by (simp add: flush_prefix)
qed

lemma table_lines_run:
  assumes "pre = [] \<or> \<not> is_row (last pre)" "post = [] \<or> \<not> is_row (hd post)"
    and "run \<noteq> []" "\<forall>l \<in> set run. is_row l"
  shows "table_lines (pre @ run @ post) = table_lines pre @ [convert_table (map strip run)] @ table_lines post"
proof -
  have "foldl table_step (clean []) (pre @ run) =
      \<lparr>result_lines = table_lines pre, table_buffer = map strip run, in_table = True\<rparr>"
    unfolding foldl_append table_pre [OF assms(1)] table_run [OF assms(4)]
    using assms(3) by (simp add: clean_def)
  then have "table_lines (pre @ run @ post) =
      flush (foldl table_step \<lparr>result_lines = table_lines pre, table_buffer = map strip run, in_table = True\<rparr> post)"
    unfolding table_lines_flush [of "pre @ run @ post"]
    using foldl_append [of table_step "clean []" "pre @ run" post] by simp
  then show ?thesis using assms(3) by (simp add: table_post [OF assms(2)])
qed

lemma convert_table_one: "convert_table [l] = l"
  by (simp add: convert_table_def)

lemma convert_table_two:
  "convert_table [h, s] =
     join [10] ([asc ''<table>'', asc ''<thead><tr>'']
       @ map (\<lambda>cell. asc ''<th>'' @ cell @ asc ''</th>'') (row_cells h)
       @ [asc ''</tr></thead>'', asc ''<tbody>'', asc ''</tbody></table>''])"
  by (simp add: convert_table_def)

section \<open>Properties of the paragraph loop\<close>

lemma block_tag_lt: "block_tag s \<Longrightarrow> startswith s (asc ''<'')"
  by (cases s) (simp_all add: block_tag_def startswith_def asc_def)

lemma para_step_out: "para_step acc b = acc @ block_out b"
  using block_tag_lt [of "strip b"] by (auto simp: para_step_def block_out_def Let_def)

lemma para_fold: "foldl para_step acc bs = acc @ concat (map block_out bs)"
  by (induction bs arbitrary: acc) (simp_all add: para_step_out)

section \<open>Properties of the image substitutions\<close>




lemma dropWhile_notin: "x \<notin> set s \<Longrightarrow> dropWhile (\<lambda>c. c \<noteq> x) s = []"
  by (induction s) auto













lemma re_sub_out: "re_sub m repl s = pieces_out repl (re_scan m None s)"
  by (simp add: re_sub_def pieces_out_def)











section \<open>Passes that find nothing to do\<close>

text \<open>A pattern that needs a character finds no match in a text without it.\<close>

lemma scan_none:
  "(\<And>prev t. c \<notin> set t \<Longrightarrow> m prev t = None) \<Longrightarrow> c \<notin> set s \<Longrightarrow> re_scan m prev s = map Lit s"
proof (induction s arbitrary: prev)
  case Nil
  then show ?case by simp
next
  case (Cons a s)
  have "m prev (a # s) = None" using Cons.prems by blast
  moreover have "re_scan m (Some a) s = map Lit s" using Cons by auto
  ultimately show ?case by simp
qed

lemma pieces_out_lits: "pieces_out repl (map Lit s) = s"
  by (induction s) (simp_all add: pieces_out_def)

lemma re_sub_none:
  "(\<And>prev t. c \<notin> set t \<Longrightarrow> m prev t = None) \<Longrightarrow> c \<notin> set s \<Longrightarrow> re_sub m repl s = s"
proof -
  assume a: "\<And>prev t. c \<notin> set t \<Longrightarrow> m prev t = None" and b: "c \<notin> set s"
  have "re_scan m None s = map Lit s" using a b by (rule scan_none)
  then show ?thesis by (simp add: re_sub_out pieces_out_lits)
qed

lemma img_at_needs: "33 \<notin> set t \<Longrightarrow> img_at t = None"
  by (auto simp: img_at_def split: list.splits)

lemma greedy_none: "(\<And>u. set u \<subseteq> set s \<Longrightarrow> f u = None) \<Longrightarrow> greedy k f s = None"
proof (induction k)
  case 0
  then show ?case by simp
next
  case (Suc k)
  then show ?case using set_drop_subset [of "Suc k" s] by simp
qed

lemma greedy1_none: "(\<And>u. set u \<subseteq> set s \<Longrightarrow> f u = None) \<Longrightarrow> greedy1 k f s = None"
proof (induction k)
  case 0
  then show ?case by simp
next
  case (Suc k)
  then show ?case using set_drop_subset [of "Suc k" s] by simp
qed

lemma inline_at_needs: "33 \<notin> set t \<Longrightarrow> inline_at prev t = None"
proof -
  assume a: "33 \<notin> set t"
  have "img_at u = None" if "set u \<subseteq> set t" for u
    using a that by (intro img_at_needs) blast
  then show ?thesis
    by (simp add: inline_at_def dotstar_def greedy_none)
qed

lemma columns_at_needs: "60 \<notin> set t \<Longrightarrow> columns_at prev t = None"
  by (cases t) (auto simp: columns_at_def marker_at_def lit_at_def startswith_def asc_def)

lemma braces_at_needs: "123 \<notin> set t \<Longrightarrow> braces_at t = None"
  by (auto simp: braces_at_def split: list.splits)

lemma anchored_header_at_needs: "123 \<notin> set t \<Longrightarrow> anchored_header_at prev t = None"
proof -
  assume a: "123 \<notin> set t"
  have b: "braces_at u = None" if "set u \<subseteq> set t" for u
    using a that by (intro braces_at_needs) blast
  have "greedy1 k (\<lambda>r. greedy1 (length (takeWhile is_space r))
                (\<lambda>ta. greedy1 (length (takeWhile (\<lambda>c. c \<noteq> 10) ta))
                   (\<lambda>a. case braces_at a of
                          None \<Rightarrow> None
                        | Some (name, rest) \<Rightarrow>
                            if eol rest
                            then Some ((take (length t - length rest) t,
                                        take (length t - length r) t,
                                        take (length ta - length rest) ta), rest)
                            else None) ta) r) t = None" for k
    by (intro greedy1_none) (simp add: b subset_trans)
  then show ?thesis
    unfolding anchored_header_at_def by simp
qed

lemma plain_header_at_needs:
  "35 \<notin> set t \<Longrightarrow> plain_header_at (asc ''# '') prev t = None"
  "35 \<notin> set t \<Longrightarrow> plain_header_at (asc ''## '') prev t = None"
  "35 \<notin> set t \<Longrightarrow> plain_header_at (asc ''### '') prev t = None"
  by (cases t; auto simp: plain_header_at_def startswith_def asc_def)+

lemma delimited_at_needs:
  "42 \<notin> set t \<Longrightarrow> delimited_at (asc ''**'') prev t = None"
  "42 \<notin> set t \<Longrightarrow> delimited_at (asc ''***'') prev t = None"
  by (cases t; auto simp: delimited_at_def startswith_def asc_def)+

lemma em_at_needs: "42 \<notin> set t \<Longrightarrow> em_at prev t = None"
  by (cases t) (auto simp: em_at_def)

lemma link_at_needs: "91 \<notin> set t \<Longrightarrow> link_at prev t = None"
  by (cases t) (auto simp: link_at_def)

lemma rule_at_needs: "45 \<notin> set t \<Longrightarrow> rule_at prev t = None"
  by (cases t) (auto simp: rule_at_def)

lemma anchor_at_needs: "123 \<notin> set t \<Longrightarrow> anchor_at t = None"
proof -
  assume "123 \<notin> set t"
  then have "123 \<notin> set (dropWhile is_space t)" by (meson set_dropWhileD)
  then show ?thesis by (auto simp: anchor_at_def split: list.splits)
qed

lemma strip_anchors_none: "123 \<notin> set s \<Longrightarrow> strip_anchors s = s"
  by (induction s) (simp_all add: anchor_at_needs)

lemma explicit_columns_none: "60 \<notin> set s \<Longrightarrow> explicit_columns U F b s = s"
  unfolding explicit_columns_def by (rule re_sub_none [of 60]) (rule columns_at_needs)

lemma inline_columns_none: "33 \<notin> set s \<Longrightarrow> inline_columns U F b s = s"
  unfolding inline_columns_def by (rule re_sub_none [of 33]) (rule inline_at_needs)

lemma single_images_none: "33 \<notin> set s \<Longrightarrow> single_images U F b s = s"
  unfolding single_images_def by (rule re_sub_none [of 33]) (rule img_at_needs)

lemma bind_anchors_none: "123 \<notin> set s \<Longrightarrow> bind_anchors s = s"
  unfolding bind_anchors_def by (rule re_sub_none [of 123]) (rule anchored_header_at_needs)

lemma plain_headers_none: "35 \<notin> set s \<Longrightarrow> plain_headers s = s"
  unfolding plain_headers_def
  by (simp add: re_sub_none [of 35, OF plain_header_at_needs(1)]
      re_sub_none [of 35, OF plain_header_at_needs(2)] re_sub_none [of 35, OF plain_header_at_needs(3)])

lemma emphasis_none: "42 \<notin> set s \<Longrightarrow> emphasis s = s"
  unfolding emphasis_def
  by (simp add: re_sub_none [of 42, OF em_at_needs] re_sub_none [of 42, OF delimited_at_needs(1)]
      re_sub_none [of 42, OF delimited_at_needs(2)])

lemma links_none: "91 \<notin> set s \<Longrightarrow> links s = s"
  unfolding links_def by (rule re_sub_none [of 91]) (rule link_at_needs)

lemma rules_none: "45 \<notin> set s \<Longrightarrow> rules s = s"
  unfolding rules_def by (rule re_sub_none [of 45]) (rule rule_at_needs)

lemma asc_join: "asc a @ asc b = asc (a @ b)" "asc a @ asc b @ r = asc (a @ b) @ r"
  by (simp_all add: asc_def)

section \<open>Evaluations\<close>












section \<open>Evaluating on ASCII literals\<close>

lemmas eval_defs = asc_def match_header_def try_hashes_def is_space_def dot_plus_end_def strip_def
  anchor_at_def slug_def lower_def ascii_table_def slug_char_def is_word_def header_of_def

lemma header_A: "header_of ascii_table (asc ''## A'') = Some (asc ''##'', asc ''A'', asc ''a'')"
  by (simp add: eval_defs)

lemma header_A1: "header_of ascii_table (asc ''## A-1'') = Some (asc ''##'', asc ''A-1'', asc ''a-1'')"
  by (simp add: eval_defs)

lemma split_AA: "split_on 10 (asc ''## A\<newline>## A'') = [asc ''## A'', asc ''## A'']"
  by (simp add: asc_def)

lemma split_AAA1:
  "split_on 10 (asc ''## A\<newline>## A\<newline>## A-1'') = [asc ''## A'', asc ''## A'', asc ''## A-1'']"
  by (simp add: asc_def)

lemma show_nat_1: "show_nat 1 = asc ''1''"
  by (simp add: show_nat.simps asc_def)

section \<open>The claims about the table of contents\<close>

text \<open>
  C2. Let line \<open>i\<close> of a document be a qualifying header (level 2 or 3) that derives the slug
  \<open>s\<close>, and let \<open>k\<close> of the lines before it be qualifying headers that derive \<open>s\<close> too. Then
  line \<open>i\<close> of the rewritten text carries the anchor \<open>s\<close> when \<open>k = 0\<close> and the anchor \<open>s-k\<close>
  otherwise, and so does the entry of the contents for it, which stands in document order.
\<close>

theorem toc_collision_numbering:
  assumes "i < length (split_on 10 md)"
    and "header_of U (split_on 10 md ! i) = Some (hashes, title, s)"
    and "k = collisions U (take i (split_on 10 md)) s"
  shows "split_on 10 (snd (generate_toc U md)) ! i =
           hashes @ asc '' '' @ title @ asc '' {#'' @
           (if k = 0 then s else s @ asc ''-'' @ show_nat k) @ asc ''}'' \<and>
         toc_items (toc_loop U (split_on 10 md)) ! headers_in U (take i (split_on 10 md)) =
           concat (replicate (length hashes - 2) (asc ''  '')) @ asc ''- ['' @ title @ asc ''](#'' @
           (if k = 0 then s else s @ asc ''-'' @ show_nat k) @ asc '')''"
  using rewritten_line_at [OF assms(1,2)] toc_item_at [OF assms(1,2)] assms(3)
  by (simp add: nth_anchor_def)

theorem toc_collision_numbering_witness:
  "split_on 10 (snd (generate_toc ascii_table (asc ''## A\<newline>## A''))) ! 1 = asc ''## A {#a-1}'' \<and>
   toc_items (toc_loop ascii_table (split_on 10 (asc ''## A\<newline>## A''))) ! 1 = asc ''- [A](#a-1)''"
proof -
  have 1: "1 < length (split_on 10 (asc ''## A\<newline>## A''))"
    by (simp add: split_AA)
  have 2: "header_of ascii_table (split_on 10 (asc ''## A\<newline>## A'') ! 1) =
      Some (asc ''##'', asc ''A'', asc ''a'')"
    by (simp add: split_AA header_A)
  have 3: "1 = collisions ascii_table (take 1 (split_on 10 (asc ''## A\<newline>## A''))) (asc ''a'')"
    by (simp add: split_AA collisions_def derives_def header_A)
  have 4: "headers_in ascii_table (take 1 (split_on 10 (asc ''## A\<newline>## A''))) = 1"
    by (simp add: split_AA headers_in_def header_A)
  have 5: "length (asc ''##'') - 2 = 0"
    by (simp add: asc_def)
  show ?thesis
    using toc_collision_numbering [OF 1 2 3, unfolded 4 5 show_nat_1] by (simp add: asc_join)
qed

text \<open>
  C3. The claim is that no two header lines of the rewritten text carry the same anchor. In
  the document of the three lines \<^verbatim>\<open>## A\<close>, \<^verbatim>\<open>## A\<close>, \<^verbatim>\<open>## A-1\<close> the second header
  collides with the first and becomes \<^verbatim>\<open>a-1\<close>, and the third derives \<^verbatim>\<open>a-1\<close> as a slug
  never seen before and keeps it: two headers carry \<^verbatim>\<open>a-1\<close>.
\<close>

theorem toc_anchor_clash:
  "split_on 10 (snd (generate_toc ascii_table (asc ''## A\<newline>## A\<newline>## A-1''))) =
     [asc ''## A {#a}'', asc ''## A {#a-1}'', asc ''## A-1 {#a-1}'']"
proof -
  have a: "asc ''a'' \<noteq> asc ''a-1''"
    by (simp add: asc_def)
  have u: "[0..<3] = [0, 1, 2]"
    by (simp add: upt_rec)
  show ?thesis
    unfolding generate_toc_lines split_AAA1
    by (simp add: u new_line_def header_A header_A1 collisions_def derives_def nth_anchor_def a
        show_nat_1 [unfolded One_nat_def] asc_join)
qed

section \<open>The claims about tables and paragraphs\<close>

text \<open>
  C7. A run of exactly one accumulated line is emitted as that line, stripped, and not as a
  table; a run of exactly two accumulated lines is emitted as a table with the header cells of
  the first line and no body row. A run stands between \<open>pre\<close>, which is empty or ends with a
  line the loop does not accumulate, and \<open>post\<close>, which is empty or begins with such a line.
\<close>

theorem table_flush_threshold:
  assumes "pre = [] \<or> \<not> is_row (last pre)" and "post = [] \<or> \<not> is_row (hd post)"
    and "is_row l" and "is_row h" and "is_row s"
  shows "table_lines (pre @ [l] @ post) = table_lines pre @ [strip l] @ table_lines post \<and>
         table_lines (pre @ [h, s] @ post) =
           table_lines pre @
           [join [10] ([asc ''<table>'', asc ''<thead><tr>'']
              @ map (\<lambda>cell. asc ''<th>'' @ cell @ asc ''</th>'') (row_cells (strip h))
              @ [asc ''</tr></thead>'', asc ''<tbody>'', asc ''</tbody></table>''])] @
           table_lines post"
  using table_lines_run [OF assms(1,2), of "[l]"] table_lines_run [OF assms(1,2), of "[h, s]"] assms(3-5)
  by (simp add: convert_table_one convert_table_two)

lemmas table_eval = is_row_def is_table_line_def is_separator_def startswith_def endswith_def
  strip_def is_space_def asc_def sep_char_def

lemma row_x: "\<not> is_row (asc ''x'')" by (simp add: table_eval)
lemma row_a: "is_row (asc ''| a |'')" by (simp add: table_eval)
lemma row_AB: "is_row (asc ''| A | B |'')" by (simp add: table_eval)
lemma row_sep: "is_row (asc ''|---|---|'')" by (simp add: table_eval)
lemma table_lines_x: "table_lines [asc ''x''] = [asc ''x'']"
  using row_x by (simp add: table_lines_def table_step_def is_row_def Let_def)
lemma strip_a: "strip (asc ''| a |'') = asc ''| a |''" by (simp add: strip_def is_space_def asc_def)
lemma cells_AB: "row_cells (strip (asc ''| A | B |'')) = [asc ''A'', asc ''B'']"
  by (simp add: row_cells_def strip_def is_space_def asc_def)

theorem table_flush_threshold_witness:
  "table_lines ([asc ''x''] @ [asc ''| a |''] @ [asc ''x'']) = [asc ''x'', asc ''| a |'', asc ''x''] \<and>
   table_lines ([asc ''x''] @ [asc ''| A | B |'', asc ''|---|---|''] @ [asc ''x'']) =
     [asc ''x'',
      asc ''<table>\<newline><thead><tr>\<newline><th>A</th>\<newline><th>B</th>\<newline></tr></thead>\<newline><tbody>\<newline></tbody></table>'',
      asc ''x'']"
proof -
  have 1: "[asc ''x''] = [] \<or> \<not> is_row (last [asc ''x''])" using row_x by simp
  have 2: "[asc ''x''] = [] \<or> \<not> is_row (hd [asc ''x''])" using row_x by simp
  have 3: "join [10] ([asc ''<table>'', asc ''<thead><tr>'']
              @ map (\<lambda>cell. asc ''<th>'' @ cell @ asc ''</th>'') [asc ''A'', asc ''B'']
              @ [asc ''</tr></thead>'', asc ''<tbody>'', asc ''</tbody></table>'']) =
      asc ''<table>\<newline><thead><tr>\<newline><th>A</th>\<newline><th>B</th>\<newline></tr></thead>\<newline><tbody>\<newline></tbody></table>''"
    by (simp add: asc_def)
  show ?thesis
    using table_flush_threshold [OF 1 2 row_a row_AB row_sep]
    unfolding table_lines_x strip_a cells_AB 3 by simp
qed

text \<open>
  C8, as amended. The paragraph stage strips every block; it drops the block that is empty
  then, passes through the stripped block that begins with \<^verbatim>\<open><\<close> (a recognised tag or any
  other), and wraps every other block as one paragraph around its stripped text, whose
  newlines stay as they are.
\<close>

theorem paragraph_blocks: "paragraphs html = join [10] (concat (map block_out (split_blank html)))"
  by (simp add: paragraphs_def para_fold)

text \<open>
  C8 as stated fails: the block \<^verbatim>\<open><strong>x</strong> y\<close> is not empty and begins with none
  of the recognised tags, and it is not wrapped.
\<close>

theorem paragraph_not_wrapped:
  "\<not> block_tag (asc ''<strong>x</strong> y'') \<and>
   paragraphs (asc ''<strong>x</strong> y'') = asc ''<strong>x</strong> y'' \<and>
   paragraphs (asc ''<strong>x</strong> y'') \<noteq> asc ''<p><strong>x</strong> y</p>''"
proof -
  have 1: "\<not> block_tag (asc ''<strong>x</strong> y'')"
    by (simp add: block_tag_def istartswith_def ieq_def asc_def)
  have 2: "strip (asc ''<strong>x</strong> y'') = asc ''<strong>x</strong> y''"
    by (simp add: strip_def is_space_def asc_def)
  have 3: "split_blank (asc ''<strong>x</strong> y'') = [asc ''<strong>x</strong> y'']"
    by (simp add: asc_def)
  have 4: "startswith (asc ''<strong>x</strong> y'') (asc ''<'')" "asc ''<strong>x</strong> y'' \<noteq> []"
    by (simp_all add: startswith_def asc_def)
  have 5: "paragraphs (asc ''<strong>x</strong> y'') = asc ''<strong>x</strong> y''"
    by (simp add: paragraphs_def 3 para_step_def 1 2 4)
  have 6: "asc ''<strong>x</strong> y'' \<noteq> asc ''<p><strong>x</strong> y</p>''"
    by (simp add: asc_def)
  show ?thesis using 1 5 6 by simp
qed

section \<open>The claims about images and columns\<close>












text \<open>
  C4. The text of the two lines \<^verbatim>\<open>![a](b) ![c](d\<close> and \<^verbatim>\<open>)\<close>: the first line holds exactly
  one image reference, and the substitution replaces both lines by a column group, since the
  path of the second reference may run over the newline.
\<close>

theorem inline_columns_cross_line:
  "images (asc ''![a](b) ![c](d'') = [(asc ''a'', asc ''b'')] \<and>
   inline_columns ascii_table no_files None (asc ''![a](b) ![c](d\<newline>)'') =
     asc ''<div class=\"image-columns\"></div>''"
proof -
  have 1: "images (asc ''![a](b) ![c](d'') = [(asc ''a'', asc ''b'')]"
    by (simp add: images_def re_findall_def img_at_def asc_def)
  have 2: "inline_at None (asc ''![a](b) ![c](d\<newline>)'') = Some (asc ''![a](b) ![c](d\<newline>)'', [])"
    by (simp add: inline_at_def dotstar_def img_at_def bol_def asc_def)
  have 3: "images (asc ''![a](b) ![c](d\<newline>)'') = [(asc ''a'', asc ''b''), (asc ''c'', asc ''d\<newline>'')]"
    by (simp add: images_def re_findall_def img_at_def asc_def)
  have 4: "re_scan inline_at None (asc ''![a](b) ![c](d\<newline>)'') = [Match (asc ''![a](b) ![c](d\<newline>)'')]"
    using 2 by (simp add: asc_def)
  have "inline_columns ascii_table no_files None (asc ''![a](b) ![c](d\<newline>)'') =
      asc ''<div class=\"image-columns\"></div>''"
    by (simp add: inline_columns_def re_sub_def 4 process_inline_columns_def 3 column_html_def
        column_item_def no_files_def asc_join)
  then show ?thesis using 1 by simp
qed

section \<open>The end-to-end example\<close>

lemmas line_eval = strip_def is_space_def startswith_def endswith_def asc_def

lemma e2e_split:
  "split_on 10 (asc ''## Intro\<newline>\<newline>Hello **world**.\<newline>\<newline>| A | B |\<newline>|---|---|\<newline>| 1 | 2 |'') =
     [asc ''## Intro'', [], asc ''Hello **world**.'', [], asc ''| A | B |'', asc ''|---|---|'', asc ''| 1 | 2 |'']"
  by (simp add: asc_def)

lemma e2e_headers:
  "header_of U (asc ''## Intro'') = Some (asc ''##'', asc ''Intro'', asc ''intro'')"
  "header_of U [] = None"
  "header_of U (asc ''Hello **world**.'') = None"
  "header_of U (asc ''| A | B |'') = None"
  "header_of U (asc ''|---|---|'') = None"
  "header_of U (asc ''| 1 | 2 |'') = None"
  by (simp_all add: header_of_def match_header_def try_hashes_def dot_plus_end_def is_space_def
      strip_def anchor_at_def slug_def lower_def slug_char_def is_word_def asc_def)

lemma upt_7: "[0..<7] = [0, 1, 2, 3, 4, 5, 6]"
  by (simp add: upt_rec)

lemma e2e_toc:
  "generate_toc U (asc ''## Intro\<newline>\<newline>Hello **world**.\<newline>\<newline>| A | B |\<newline>|---|---|\<newline>| 1 | 2 |'') =
     (asc ''## '' @ [0x76EE, 0x6B21] @ asc ''\<newline>\<newline>- [Intro](#intro)\<newline>\<newline>---\<newline>\<newline>'',
      asc ''## Intro {#intro}\<newline>\<newline>Hello **world**.\<newline>\<newline>| A | B |\<newline>|---|---|\<newline>| 1 | 2 |'')"
proof -
  let ?md = "asc ''## Intro\<newline>\<newline>Hello **world**.\<newline>\<newline>| A | B |\<newline>|---|---|\<newline>| 1 | 2 |''"
  have items: "toc_items (toc_loop U (split_on 10 ?md)) = [asc ''- [Intro](#intro)'']"
    unfolding e2e_split
    by (simp add: toc_loop_inv upt_7 new_item_def e2e_headers collisions_def nth_anchor_def)
       (simp add: asc_def)
  have lines: "join [10] (modified_lines (toc_loop U (split_on 10 ?md))) =
      asc ''## Intro {#intro}\<newline>\<newline>Hello **world**.\<newline>\<newline>| A | B |\<newline>|---|---|\<newline>| 1 | 2 |''"
    unfolding e2e_split
    by (simp add: toc_loop_inv upt_7 new_line_def e2e_headers collisions_def nth_anchor_def)
       (simp add: asc_def)
  show ?thesis
    unfolding generate_toc_def Let_def items lines by (simp add: asc_def)
qed

lemma toc_none:
  "60 \<notin> set (asc ''## '' @ [0x76EE, 0x6B21] @ asc ''\<newline>\<newline>- [Intro](#intro)\<newline>\<newline>---\<newline>\<newline>'')"
  "33 \<notin> set (asc ''## '' @ [0x76EE, 0x6B21] @ asc ''\<newline>\<newline>- [Intro](#intro)\<newline>\<newline>---\<newline>\<newline>'')"
  "123 \<notin> set (asc ''## '' @ [0x76EE, 0x6B21] @ asc ''\<newline>\<newline>- [Intro](#intro)\<newline>\<newline>---\<newline>\<newline>'')"
  by (simp_all add: asc_def)

lemma toc_quotes:
  "blockquotes (asc ''## '' @ [0x76EE, 0x6B21] @ asc ''\<newline>\<newline>- [Intro](#intro)\<newline>\<newline>---\<newline>\<newline>'') =
   asc ''## '' @ [0x76EE, 0x6B21] @ asc ''\<newline>\<newline>- [Intro](#intro)\<newline>\<newline>---\<newline>\<newline>''"
  by (simp add: blockquotes_def quote_step_def line_eval)

lemma toc_headers:
  "plain_headers (asc ''## '' @ [0x76EE, 0x6B21] @ asc ''\<newline>\<newline>- [Intro](#intro)\<newline>\<newline>---\<newline>\<newline>'') =
   asc ''<h2>'' @ [0x76EE, 0x6B21] @ asc ''</h2>\<newline>\<newline>- [Intro](#intro)\<newline>\<newline>---\<newline>\<newline>''"
  by (simp add: plain_headers_def re_sub_def plain_header_at_def bol_def startswith_def asc_def)

lemma toc_emphasis:
  "emphasis (asc ''<h2>'' @ [0x76EE, 0x6B21] @ asc ''</h2>\<newline>\<newline>- [Intro](#intro)\<newline>\<newline>---\<newline>\<newline>'') =
   asc ''<h2>'' @ [0x76EE, 0x6B21] @ asc ''</h2>\<newline>\<newline>- [Intro](#intro)\<newline>\<newline>---\<newline>\<newline>''"
  by (rule emphasis_none) (simp add: asc_def)

lemma toc_links:
  "links (asc ''<h2>'' @ [0x76EE, 0x6B21] @ asc ''</h2>\<newline>\<newline>- [Intro](#intro)\<newline>\<newline>---\<newline>\<newline>'') =
   asc ''<h2>'' @ [0x76EE, 0x6B21] @ asc ''</h2>\<newline>\<newline>- <a href=\"#intro\">Intro</a>\<newline>\<newline>---\<newline>\<newline>''"
  by (simp add: links_def re_sub_def link_at_def asc_def)

lemma toc_rules:
  "rules (asc ''<h2>'' @ [0x76EE, 0x6B21] @ asc ''</h2>\<newline>\<newline>- <a href=\"#intro\">Intro</a>\<newline>\<newline>---\<newline>\<newline>'') =
   asc ''<h2>'' @ [0x76EE, 0x6B21] @ asc ''</h2>\<newline>\<newline>- <a href=\"#intro\">Intro</a>\<newline>\<newline><hr/>\<newline>\<newline>''"
  by (simp add: rules_def re_sub_def rule_at_def bol_def eol_def asc_def)

lemma toc_tables:
  "tables (asc ''<h2>'' @ [0x76EE, 0x6B21] @ asc ''</h2>\<newline>\<newline>- <a href=\"#intro\">Intro</a>\<newline>\<newline><hr/>\<newline>\<newline>'') =
   asc ''<h2>'' @ [0x76EE, 0x6B21] @ asc ''</h2>\<newline>\<newline>- <a href=\"#intro\">Intro</a>\<newline>\<newline><hr/>\<newline>\<newline>''"
  by (simp add: tables_def table_lines_def table_step_def is_table_line_def is_separator_def line_eval)

lemma toc_lists:
  "lists U (asc ''<h2>'' @ [0x76EE, 0x6B21] @ asc ''</h2>\<newline>\<newline>- <a href=\"#intro\">Intro</a>\<newline>\<newline><hr/>\<newline>\<newline>'') =
   asc ''<h2>'' @ [0x76EE, 0x6B21] @ asc ''</h2>\<newline>\<newline><ul>\<newline><li><a href=\"#intro\">Intro</a></li>\<newline></ul>\<newline>\<newline><hr/>\<newline>\<newline>''"
  by (simp add: lists_def list_step_def numbered_def is_digit_def line_eval)

lemma toc_paragraphs:
  "paragraphs (asc ''<h2>'' @ [0x76EE, 0x6B21] @ asc ''</h2>\<newline>\<newline><ul>\<newline><li><a href=\"#intro\">Intro</a></li>\<newline></ul>\<newline>\<newline><hr/>\<newline>\<newline>'') =
   asc ''<h2>'' @ [0x76EE, 0x6B21] @ asc ''</h2>\<newline><ul>\<newline><li><a href=\"#intro\">Intro</a></li>\<newline></ul>\<newline><hr/>''"
  by (simp add: paragraph_blocks block_out_def line_eval)

lemma toc_internal:
  "markdown_to_html_internal U F base_path
     (asc ''## '' @ [0x76EE, 0x6B21] @ asc ''\<newline>\<newline>- [Intro](#intro)\<newline>\<newline>---\<newline>\<newline>'') =
   asc ''<h2>'' @ [0x76EE, 0x6B21] @ asc ''</h2>\<newline><ul>\<newline><li><a href=\"#intro\">Intro</a></li>\<newline></ul>\<newline><hr/>''"
  unfolding markdown_to_html_internal_def
  by (simp only: explicit_columns_none inline_columns_none bind_anchors_none strip_anchors_none
      single_images_none toc_none toc_quotes toc_headers toc_emphasis toc_links toc_rules toc_tables
      toc_lists toc_paragraphs not_False_eq_True)

lemma body_none:
  "60 \<notin> set (asc ''## Intro {#intro}\<newline>\<newline>Hello **world**.\<newline>\<newline>| A | B |\<newline>|---|---|\<newline>| 1 | 2 |'')"
  "33 \<notin> set (asc ''## Intro {#intro}\<newline>\<newline>Hello **world**.\<newline>\<newline>| A | B |\<newline>|---|---|\<newline>| 1 | 2 |'')"
  "123 \<notin> set (asc ''<h2 id=\"intro\">Intro</h2>\<newline>\<newline>Hello **world**.\<newline>\<newline>| A | B |\<newline>|---|---|\<newline>| 1 | 2 |'')"
  "33 \<notin> set (asc ''<h2 id=\"intro\">Intro</h2>\<newline>\<newline>Hello **world**.\<newline>\<newline>| A | B |\<newline>|---|---|\<newline>| 1 | 2 |'')"
  "35 \<notin> set (asc ''<h2 id=\"intro\">Intro</h2>\<newline>\<newline>Hello **world**.\<newline>\<newline>| A | B |\<newline>|---|---|\<newline>| 1 | 2 |'')"
  "91 \<notin> set (asc ''<h2 id=\"intro\">Intro</h2>\<newline>\<newline>Hello <strong>world</strong>.\<newline>\<newline>| A | B |\<newline>|---|---|\<newline>| 1 | 2 |'')"
  "123 \<notin> set (asc ''\<newline>\<newline>Hello **world**.\<newline>\<newline>| A | B |\<newline>|---|---|\<newline>| 1 | 2 |'')"
  "42 \<notin> set (asc ''<h2 id=\"intro\">Intro</h2>\<newline>\<newline>Hello <strong>world</strong>.\<newline>\<newline>| A | B |\<newline>|---|---|\<newline>| 1 | 2 |'')"
  by (simp_all add: asc_def)

lemma body_bind:
  "bind_anchors (asc ''## Intro {#intro}\<newline>\<newline>Hello **world**.\<newline>\<newline>| A | B |\<newline>|---|---|\<newline>| 1 | 2 |'') =
   asc ''<h2 id=\"intro\">Intro</h2>\<newline>\<newline>Hello **world**.\<newline>\<newline>| A | B |\<newline>|---|---|\<newline>| 1 | 2 |''"
proof -
  have 1: "anchored_header_at None (asc ''## Intro {#intro}\<newline>\<newline>Hello **world**.\<newline>\<newline>| A | B |\<newline>|---|---|\<newline>| 1 | 2 |'') =
      Some ((asc ''## Intro {#intro}'', asc ''##'', asc ''Intro {#intro}''),
            asc ''\<newline>\<newline>Hello **world**.\<newline>\<newline>| A | B |\<newline>|---|---|\<newline>| 1 | 2 |'')"
    by (simp add: anchored_header_at_def bol_def eol_def braces_at_def is_space_def asc_def)
  have 2: "header_with_anchor (asc ''## Intro {#intro}'', asc ''##'', asc ''Intro {#intro}'') =
      asc ''<h2 id=\"intro\">Intro</h2>''"
    by (simp add: header_with_anchor_def braces_at_def anchor_at_def is_space_def show_nat.simps asc_def)
  have 4: "re_scan anchored_header_at (Some 125)
      (asc ''\<newline>\<newline>Hello **world**.\<newline>\<newline>| A | B |\<newline>|---|---|\<newline>| 1 | 2 |'') =
      map Lit (asc ''\<newline>\<newline>Hello **world**.\<newline>\<newline>| A | B |\<newline>|---|---|\<newline>| 1 | 2 |'')"
    by (rule scan_none [of 123, OF anchored_header_at_needs body_none(7)])
  have 5: "re_scan anchored_header_at None
      (asc ''## Intro {#intro}\<newline>\<newline>Hello **world**.\<newline>\<newline>| A | B |\<newline>|---|---|\<newline>| 1 | 2 |'') =
      Match (asc ''## Intro {#intro}'', asc ''##'', asc ''Intro {#intro}'') #
      re_scan anchored_header_at (Some 125)
        (asc ''\<newline>\<newline>Hello **world**.\<newline>\<newline>| A | B |\<newline>|---|---|\<newline>| 1 | 2 |'')"
    using 1 by (simp add: asc_def)
  show ?thesis
    unfolding bind_anchors_def re_sub_out 5 4
    by (simp add: pieces_out_def 2 comp_def) (simp add: asc_def)
qed

lemma body_quotes:
  "blockquotes (asc ''<h2 id=\"intro\">Intro</h2>\<newline>\<newline>Hello **world**.\<newline>\<newline>| A | B |\<newline>|---|---|\<newline>| 1 | 2 |'') =
   asc ''<h2 id=\"intro\">Intro</h2>\<newline>\<newline>Hello **world**.\<newline>\<newline>| A | B |\<newline>|---|---|\<newline>| 1 | 2 |''"
  by (simp add: blockquotes_def quote_step_def line_eval)

lemma body_emphasis:
  "emphasis (asc ''<h2 id=\"intro\">Intro</h2>\<newline>\<newline>Hello **world**.\<newline>\<newline>| A | B |\<newline>|---|---|\<newline>| 1 | 2 |'') =
   asc ''<h2 id=\"intro\">Intro</h2>\<newline>\<newline>Hello <strong>world</strong>.\<newline>\<newline>| A | B |\<newline>|---|---|\<newline>| 1 | 2 |''"
proof -
  have 1: "re_sub (delimited_at (asc ''***'')) (\<lambda>g. asc ''<strong><em>'' @ g @ asc ''</em></strong>'')
      (asc ''<h2 id=\"intro\">Intro</h2>\<newline>\<newline>Hello **world**.\<newline>\<newline>| A | B |\<newline>|---|---|\<newline>| 1 | 2 |'') =
      asc ''<h2 id=\"intro\">Intro</h2>\<newline>\<newline>Hello **world**.\<newline>\<newline>| A | B |\<newline>|---|---|\<newline>| 1 | 2 |''"
    by (simp add: re_sub_def delimited_at_def startswith_def asc_def)
  have 2: "re_sub (delimited_at (asc ''**'')) (\<lambda>g. asc ''<strong>'' @ g @ asc ''</strong>'')
      (asc ''<h2 id=\"intro\">Intro</h2>\<newline>\<newline>Hello **world**.\<newline>\<newline>| A | B |\<newline>|---|---|\<newline>| 1 | 2 |'') =
      asc ''<h2 id=\"intro\">Intro</h2>\<newline>\<newline>Hello <strong>world</strong>.\<newline>\<newline>| A | B |\<newline>|---|---|\<newline>| 1 | 2 |''"
    by (simp add: re_sub_def delimited_at_def startswith_def asc_def)
  have 3: "re_sub em_at (\<lambda>g. asc ''<em>'' @ g @ asc ''</em>'')
      (asc ''<h2 id=\"intro\">Intro</h2>\<newline>\<newline>Hello <strong>world</strong>.\<newline>\<newline>| A | B |\<newline>|---|---|\<newline>| 1 | 2 |'') =
      asc ''<h2 id=\"intro\">Intro</h2>\<newline>\<newline>Hello <strong>world</strong>.\<newline>\<newline>| A | B |\<newline>|---|---|\<newline>| 1 | 2 |''"
    by (rule re_sub_none [of 42, OF em_at_needs body_none(8)])
  show ?thesis unfolding emphasis_def 1 2 3 by (rule refl)
qed

lemma body_rules:
  "rules (asc ''<h2 id=\"intro\">Intro</h2>\<newline>\<newline>Hello <strong>world</strong>.\<newline>\<newline>| A | B |\<newline>|---|---|\<newline>| 1 | 2 |'') =
   asc ''<h2 id=\"intro\">Intro</h2>\<newline>\<newline>Hello <strong>world</strong>.\<newline>\<newline>| A | B |\<newline>|---|---|\<newline>| 1 | 2 |''"
  by (simp add: rules_def re_sub_def rule_at_def bol_def eol_def asc_def)

lemma body_tables:
  "tables (asc ''<h2 id=\"intro\">Intro</h2>\<newline>\<newline>Hello <strong>world</strong>.\<newline>\<newline>| A | B |\<newline>|---|---|\<newline>| 1 | 2 |'') =
   asc ''<h2 id=\"intro\">Intro</h2>\<newline>\<newline>Hello <strong>world</strong>.\<newline>\<newline><table>\<newline><thead><tr>\<newline><th>A</th>\<newline><th>B</th>\<newline></tr></thead>\<newline><tbody>\<newline><tr>\<newline><td>1</td>\<newline><td>2</td>\<newline></tr>\<newline></tbody></table>''"
  by (simp add: tables_def table_lines_def table_step_def is_table_line_def is_separator_def
      convert_table_def row_cells_def body_row_def sep_char_def line_eval)

lemma body_lists:
  "lists U (asc ''<h2 id=\"intro\">Intro</h2>\<newline>\<newline>Hello <strong>world</strong>.\<newline>\<newline><table>\<newline><thead><tr>\<newline><th>A</th>\<newline><th>B</th>\<newline></tr></thead>\<newline><tbody>\<newline><tr>\<newline><td>1</td>\<newline><td>2</td>\<newline></tr>\<newline></tbody></table>'') =
   asc ''<h2 id=\"intro\">Intro</h2>\<newline>\<newline>Hello <strong>world</strong>.\<newline>\<newline><table>\<newline><thead><tr>\<newline><th>A</th>\<newline><th>B</th>\<newline></tr></thead>\<newline><tbody>\<newline><tr>\<newline><td>1</td>\<newline><td>2</td>\<newline></tr>\<newline></tbody></table>''"
  by (simp add: lists_def list_step_def numbered_def is_digit_def line_eval)

lemma body_paragraphs:
  "paragraphs (asc ''<h2 id=\"intro\">Intro</h2>\<newline>\<newline>Hello <strong>world</strong>.\<newline>\<newline><table>\<newline><thead><tr>\<newline><th>A</th>\<newline><th>B</th>\<newline></tr></thead>\<newline><tbody>\<newline><tr>\<newline><td>1</td>\<newline><td>2</td>\<newline></tr>\<newline></tbody></table>'') =
   asc ''<h2 id=\"intro\">Intro</h2>\<newline><p>Hello <strong>world</strong>.</p>\<newline><table>\<newline><thead><tr>\<newline><th>A</th>\<newline><th>B</th>\<newline></tr></thead>\<newline><tbody>\<newline><tr>\<newline><td>1</td>\<newline><td>2</td>\<newline></tr>\<newline></tbody></table>''"
  by (simp add: paragraph_blocks block_out_def line_eval)

lemma body_internal:
  "markdown_to_html_internal U F base_path
     (asc ''## Intro {#intro}\<newline>\<newline>Hello **world**.\<newline>\<newline>| A | B |\<newline>|---|---|\<newline>| 1 | 2 |'') =
   asc ''<h2 id=\"intro\">Intro</h2>\<newline><p>Hello <strong>world</strong>.</p>\<newline><table>\<newline><thead><tr>\<newline><th>A</th>\<newline><th>B</th>\<newline></tr></thead>\<newline><tbody>\<newline><tr>\<newline><td>1</td>\<newline><td>2</td>\<newline></tr>\<newline></tbody></table>''"
  unfolding markdown_to_html_internal_def
  by (simp only: explicit_columns_none inline_columns_none strip_anchors_none single_images_none
      plain_headers_none links_none body_none body_bind body_quotes body_emphasis body_rules
      body_tables body_lists body_paragraphs not_False_eq_True)

text \<open>
  C1. With the table of contents asked for, the conversion of the text
  \<^verbatim>\<open>## Intro\<close>, a blank line, \<^verbatim>\<open>Hello **world**.\<close>, a blank line and the three table lines
  \<^verbatim>\<open>| A | B |\<close>, \<^verbatim>\<open>|---|---|\<close>, \<^verbatim>\<open>| 1 | 2 |\<close> is the text below, whatever the Unicode table,
  the files and the base path are: the container of the contents with a link to the anchor
  \<^verbatim>\<open>intro\<close>, the level-2 header with the identifier \<^verbatim>\<open>intro\<close> and the title \<^verbatim>\<open>Intro\<close>, the
  paragraph with \<^verbatim>\<open>world\<close> in bold, and the table with the header cells A and B and the one
  body row 1, 2. The heading of the contents is the two characters U+76EE U+6B21.
\<close>

theorem end_to_end_example:
  "markdown_to_html U F base_path True
     (asc ''## Intro\<newline>\<newline>Hello **world**.\<newline>\<newline>| A | B |\<newline>|---|---|\<newline>| 1 | 2 |'') =
   asc ''<nav class=\"toc\"><h2>'' @ [0x76EE, 0x6B21]
     @ asc ''</h2>\<newline><ul>\<newline><li><a href=\"#intro\">Intro</a></li>\<newline></ul>\<newline><hr/></nav>''
     @ asc ''<h2 id=\"intro\">Intro</h2>\<newline><p>Hello <strong>world</strong>.</p>\<newline>''
     @ asc ''<table>\<newline><thead><tr>\<newline><th>A</th>\<newline><th>B</th>\<newline></tr></thead>\<newline><tbody>\<newline><tr>\<newline><td>1</td>\<newline><td>2</td>\<newline></tr>\<newline></tbody></table>''"
proof -
  have ne: "asc ''## '' @ [0x76EE, 0x6B21] @ asc ''\<newline>\<newline>- [Intro](#intro)\<newline>\<newline>---\<newline>\<newline>'' \<noteq> []"
    by (simp add: asc_def)
  show ?thesis
    unfolding markdown_to_html_def e2e_toc
    by (simp only: if_True prod.case ne toc_internal body_internal not_False_eq_True)
       (simp add: asc_def)
qed

end
